theory Spec2Isabelle
  imports Main "HOL-Library.Char_ord" "HOL-Library.List_Lexorder"
begin

section \<open>The type model consumed by \<open>codegen/types.go\<close>\<close>

text \<open>
  The generator works on the type model of package \<open>design\<close>. A \<open>DataType\<close> is one of
  \<open>Primitive\<close>, \<open>*Array\<close>, \<open>Object\<close>, \<open>*Hash\<close>, \<open>*UserTypeDefinition\<close> and
  \<open>*MediaTypeDefinition\<close>; the constructor \<open>UnknownType\<close> stands for any other value of the
  interface, the one the \<open>default\<close> branches of the type switches catch. A \<open>Primitive\<close> is
  a \<open>Kind\<close>; \<open>OtherKind\<close> stands for every kind that is not one of the six primitive kinds.

  An \<open>Object\<close> is a Go map from field names to attributes. It is an association list read
  through \<open>map_of\<close>: the order of the list is one order in which \<open>range\<close> may enumerate
  the map, and a key bound twice counts once, with its first binding.

  A \<open>MediaTypeDefinition\<close> embeds a \<open>*UserTypeDefinition\<close>; the functions below read nothing
  else of it. Values are finite trees, so a user type that refers to itself is not represented;
  none of the functions below follows a user type further than the shape of its attribute.
\<close>

datatype kind = BooleanKind | IntegerKind | NumberKind | StringKind | DateTimeKind | AnyKind
  | OtherKind

datatype validation = RequiredValidationDefinition (Names: "string list")
  | OtherValidationDefinition

datatype data_type =
    Primitive kind
  | Array attribute_definition
  | Object "(string \<times> attribute_definition) list"
  | Hash attribute_definition attribute_definition
  | UserType user_type_definition
  | MediaType user_type_definition
  | UnknownType
and attribute_definition =
    AttributeDefinition (Type: data_type) (Description: string)
      (Validations: "validation list") (ForcedPointer: bool)
and user_type_definition =
    UserTypeDefinition (Definition: attribute_definition) (TypeName: string)
      (APIVersions: "string list")

text \<open>The panics of the file, as error values.\<close>

datatype error =
    UnknownDataStructureType  \<comment> \<open>\<open>panic("goa bug: unknown data structure type")\<close>\<close>
  | UnknownTypeError          \<comment> \<open>\<open>panic(fmt.Sprintf("goa bug: unknown type %#v", actual))\<close>\<close>
  | UnknownPrimitiveType      \<comment> \<open>\<open>panic(fmt.Sprintf("goa bug: unknown primitive type %#v", actual))\<close>\<close>
  | NilPointerDereference     \<comment> \<open>the runtime panic on reading a field of a nil attribute\<close>

definition and_then :: "error + 'a \<Rightarrow> ('a \<Rightarrow> error + 'b) \<Rightarrow> error + 'b" where
  "and_then m f = (case m of Inl e \<Rightarrow> Inl e | Inr v \<Rightarrow> f v)"

text \<open>
  A \<open>for _, x := range xs\<close> loop whose body updates a buffer and may panic: the body takes the
  element and the buffer and returns the new buffer.
\<close>

fun range_loop :: "'a list \<Rightarrow> ('a \<Rightarrow> 's \<Rightarrow> error + 's) \<Rightarrow> 's \<Rightarrow> error + 's" where
  "range_loop [] body buf = Inr buf"
| "range_loop (x # xs) body buf = and_then (body x buf) (range_loop xs body)"

lemma and_then_cong [fundef_cong]:
  "m = m' \<Longrightarrow> (\<And>v. m' = Inr v \<Longrightarrow> f v = f' v) \<Longrightarrow> and_then m f = and_then m' f'"
  by (cases m') (simp_all add: and_then_def)

lemma range_loop_cong [fundef_cong]:
  "xs = ys \<Longrightarrow> buf = buf' \<Longrightarrow> (\<And>x b. x \<in> set ys \<Longrightarrow> body x b = body' x b)
    \<Longrightarrow> range_loop xs body buf = range_loop ys body' buf'"
proof (induction ys arbitrary: xs buf buf')
  case Nil
  then show ?case by simp
next
  case (Cons y ys)
  have "range_loop ys body b = range_loop ys body' b" for b
    by (rule Cons.IH) (simp_all add: Cons.prems)
  then show ?case
    using Cons.prems by (simp add: and_then_def split: sum.splits)
qed

section \<open>Runes and bytes\<close>

text \<open>
  A Go string is a sequence of bytes, here a \<open>char list\<close>. \<open>Goify\<close> reads it byte by byte and
  converts each byte with \<open>rune(str[i])\<close>, so the runes it classifies are the code points
  0..255. The functions of Go's \<open>unicode\<close> package are given on that range; \<open>WriteRune\<close>
  appends the UTF-8 encoding of a rune.
\<close>

type_synonym rune = nat

definition rune_of :: "char \<Rightarrow> rune" where
  "rune_of c = of_char c"

definition IsLetter :: "rune \<Rightarrow> bool" where
  "IsLetter r \<longleftrightarrow>
     (0x41 \<le> r \<and> r \<le> 0x5A) \<or> (0x61 \<le> r \<and> r \<le> 0x7A) \<or> r = 0xAA \<or> r = 0xB5 \<or> r = 0xBA \<or>
     (0xC0 \<le> r \<and> r \<le> 0xD6) \<or> (0xD8 \<le> r \<and> r \<le> 0xF6) \<or> (0xF8 \<le> r \<and> r \<le> 0xFF)"

definition IsDigit :: "rune \<Rightarrow> bool" where
  "IsDigit r \<longleftrightarrow> 0x30 \<le> r \<and> r \<le> 0x39"

definition ToUpper :: "rune \<Rightarrow> rune" where
  "ToUpper r =
     (if 0x61 \<le> r \<and> r \<le> 0x7A then r - 0x20
      else if r = 0xB5 then 0x39C
      else if (0xE0 \<le> r \<and> r \<le> 0xF6) \<or> (0xF8 \<le> r \<and> r \<le> 0xFE) then r - 0x20
      else if r = 0xFF then 0x178
      else r)"

definition ToLower :: "rune \<Rightarrow> rune" where
  "ToLower r =
     (if 0x41 \<le> r \<and> r \<le> 0x5A then r + 0x20
      else if (0xC0 \<le> r \<and> r \<le> 0xD6) \<or> (0xD8 \<le> r \<and> r \<le> 0xDE) then r + 0x20
      else r)"

definition WriteRune :: "string \<Rightarrow> rune \<Rightarrow> string" where
  "WriteRune b r =
     (if r < 0x80 then b @ [char_of r]
      else if r < 0x800 then b @ [char_of (0xC0 + r div 0x40), char_of (0x80 + r mod 0x40)]
      else if r < 0x10000 then
        b @ [char_of (0xE0 + r div 0x1000), char_of (0x80 + (r div 0x40) mod 0x40),
             char_of (0x80 + r mod 0x40)]
      else
        b @ [char_of (0xF0 + r div 0x40000), char_of (0x80 + (r div 0x1000) mod 0x40),
             char_of (0x80 + (r div 0x40) mod 0x40), char_of (0x80 + r mod 0x40)])"

section \<open>Goify\<close>

text \<open>The table \<open>reserved\<close>: its keys, in the order of the source.\<close>

definition reserved :: "string list" where
  "reserved =
    [''byte'', ''complex128'', ''complex64'', ''float32'', ''float64'', ''int'', ''int16'',
     ''int32'', ''int64'', ''int8'', ''rune'', ''string'', ''uint16'', ''uint32'', ''uint64'',
     ''uint8'',
     ''break'', ''case'', ''chan'', ''const'', ''continue'', ''default'', ''defer'', ''else'',
     ''fallthrough'', ''for'', ''func'', ''go'', ''goto'', ''if'', ''import'', ''interface'',
     ''map'', ''package'', ''range'', ''return'', ''select'', ''struct'', ''switch'', ''type'',
     ''var'']"

text \<open>
  The loop of \<open>Goify\<close> over the bytes of \<open>str\<close>, on the state
  \<open>(b, firstWritten, nextUpper)\<close>.
\<close>

fun Goify_loop :: "string \<Rightarrow> bool \<Rightarrow> string \<times> bool \<times> bool \<Rightarrow> string \<times> bool \<times> bool" where
  "Goify_loop [] firstUpper st = st"
| "Goify_loop (c # cs) firstUpper (b, firstWritten, nextUpper) =
     (let r = rune_of c in
      if r = 0x5F then Goify_loop cs firstUpper (b, firstWritten, True)
      else if IsLetter r \<or> IsDigit r then
        (if \<not> firstWritten then
           Goify_loop cs firstUpper
             (WriteRune b (if firstUpper then ToUpper r else ToLower r), True, False)
         else if nextUpper then
           Goify_loop cs firstUpper (WriteRune b (ToUpper r), firstWritten, False)
         else Goify_loop cs firstUpper (WriteRune b r, firstWritten, nextUpper))
      else Goify_loop cs firstUpper (b, firstWritten, nextUpper))"

definition Goify :: "string \<Rightarrow> bool \<Rightarrow> string" where
  "Goify str firstUpper =
     (if str = ''ok'' \<and> firstUpper then ''OK''
      else if str = ''id'' \<and> firstUpper then ''ID''
      else
        let b = fst (Goify_loop str firstUpper ([], False, False)) in
        if length b = 0 then ''_v''
        else if b \<in> set reserved then b @ ''_''
        else b)"

section \<open>WriteTabs and PackagePrefix\<close>

text \<open>\<open>WriteTabs\<close> returns the buffer with \<open>count\<close> tabs appended, none when \<open>count \<le> 0\<close>.\<close>

definition WriteTabs :: "string \<Rightarrow> int \<Rightarrow> string" where
  "WriteTabs buf count = buf @ replicate (nat count) (CHR 0x09)"

definition PackagePrefix :: "user_type_definition \<Rightarrow> bool \<Rightarrow> string \<Rightarrow> string" where
  "PackagePrefix ut versioned pkg =
     (if \<not> versioned then ''''
      else if length (APIVersions ut) = 0 then pkg @ ''.''
      else '''')"

section \<open>The methods of package \<open>design\<close> that the generator calls\<close>

text \<open>
  Modelled from the spec: \<open>DataType.IsObject\<close> of package \<open>design\<close>, which is not part of
  the file. An \<open>Object\<close> is an object, a named type is one when its underlying shape is, and
  nothing else is.
\<close>

fun IsObject :: "data_type \<Rightarrow> bool" where
  "IsObject (Object fs) = True"
| "IsObject (UserType (UserTypeDefinition (AttributeDefinition t d vs fp) n vers)) = IsObject t"
| "IsObject (MediaType (UserTypeDefinition (AttributeDefinition t d vs fp) n vers)) = IsObject t"
| "IsObject (Primitive k) = False"
| "IsObject (Array e) = False"
| "IsObject (Hash k e) = False"
| "IsObject UnknownType = False"

text \<open>
  Modelled from the spec: \<open>AttributeDefinition.AllRequired\<close> and \<open>IsRequired\<close> of package
  \<open>design\<close>. The required names of an attribute are the \<open>Names\<close> of its required
  validations, the metadata that \<open>GoPackageTypeName\<close> builds from its \<open>required\<close>
  argument for an inline object.
\<close>

fun AllRequired_of :: "validation list \<Rightarrow> string list" where
  "AllRequired_of [] = []"
| "AllRequired_of (RequiredValidationDefinition ns # vs) = ns @ AllRequired_of vs"
| "AllRequired_of (OtherValidationDefinition # vs) = AllRequired_of vs"

definition AllRequired :: "attribute_definition \<Rightarrow> string list" where
  "AllRequired a = AllRequired_of (Validations a)"

definition IsRequired :: "attribute_definition \<Rightarrow> string \<Rightarrow> bool" where
  "IsRequired a attName \<longleftrightarrow> attName \<in> set (AllRequired a)"

text \<open>
  Modelled from the spec: \<open>DataType.IsPrimitive\<close> of package \<open>design\<close>. A
  \<open>Primitive\<close> is primitive, a named type is primitive when its underlying shape is, as for
  \<open>IsObject\<close>, and nothing else is.
\<close>

fun IsPrimitive :: "data_type \<Rightarrow> bool" where
  "IsPrimitive (Primitive k) = True"
| "IsPrimitive (UserType (UserTypeDefinition (AttributeDefinition t d vs fp) n vers)) =
     IsPrimitive t"
| "IsPrimitive (MediaType (UserTypeDefinition (AttributeDefinition t d vs fp) n vers)) =
     IsPrimitive t"
| "IsPrimitive (Object fs) = False"
| "IsPrimitive (Array e) = False"
| "IsPrimitive (Hash k e) = False"
| "IsPrimitive UnknownType = False"

text \<open>
  Modelled from the spec: \<open>AttributeDefinition.IsPrimitivePointer\<close> of package \<open>design\<close>.
  The required names of the object tell which of its fields need a pointer: a field of
  primitive type is held through a pointer when it is optional, that is when its name is not
  among the required names of the object, and also when it carries the forced-pointer mark,
  which applies even to a required field. A field that is not primitive is never a primitive
  pointer, and neither is a name that the object does not bind.
\<close>

definition IsPrimitivePointer :: "attribute_definition \<Rightarrow> string \<Rightarrow> bool" where
  "IsPrimitivePointer a attName =
     (case Type a of
        Object fs \<Rightarrow>
          (case map_of fs attName of
             Some att \<Rightarrow> IsPrimitive (Type att) \<and> (ForcedPointer att \<or> \<not> IsRequired a attName)
           | None \<Rightarrow> False)
      | _ \<Rightarrow> False)"

section \<open>GoNativeType\<close>

fun GoNativeType :: "data_type \<Rightarrow> error + string" where
  "GoNativeType (Primitive BooleanKind) = Inr ''bool''"
| "GoNativeType (Primitive IntegerKind) = Inr ''int''"
| "GoNativeType (Primitive NumberKind) = Inr ''float64''"
| "GoNativeType (Primitive StringKind) = Inr ''string''"
| "GoNativeType (Primitive DateTimeKind) = Inr ''time.Time''"
| "GoNativeType (Primitive AnyKind) = Inr ''interface{}''"
| "GoNativeType (Primitive OtherKind) = Inl UnknownPrimitiveType"
| "GoNativeType (Array (AttributeDefinition t d vs fp)) =
     and_then (GoNativeType t) (\<lambda>e. Inr (''[]'' @ e))"
| "GoNativeType (Object fs) = Inr ''map[string]interface{}''"
| "GoNativeType (Hash (AttributeDefinition kt kd kvs kfp) (AttributeDefinition et ed evs efp)) =
     and_then (GoNativeType kt) (\<lambda>k.
     and_then (GoNativeType et) (\<lambda>e. Inr (''map['' @ k @ '']'' @ e)))"
| "GoNativeType (MediaType (UserTypeDefinition (AttributeDefinition t d vs fp) n vers)) =
     GoNativeType t"
| "GoNativeType (UserType (UserTypeDefinition (AttributeDefinition t d vs fp) n vers)) =
     GoNativeType t"
| "GoNativeType UnknownType = Inl UnknownTypeError"

section \<open>GoTypeDef, GoPackageTypeRef and GoPackageTypeName\<close>

text \<open>The keys of an object, in the order in which the list enumerates them.\<close>

definition map_keys :: "(string \<times> attribute_definition) list \<Rightarrow> string list" where
  "map_keys actual = remdups (map fst actual)"

text \<open>
  The text that one round of the loop over the sorted keys writes after the tabs, from the
  rendered type of the field: the lines 64 to 80 of the source.
\<close>

definition GoTypeDef_field ::
  "attribute_definition \<Rightarrow> string \<Rightarrow> attribute_definition \<Rightarrow> bool \<Rightarrow> string \<Rightarrow> string" where
  "GoTypeDef_field def name field jsonTags typedef0 =
     (let typedef = (if IsObject (Type field) \<or> IsPrimitivePointer def name
                     then ''*'' @ typedef0 else typedef0);
          fname = Goify name True;
          omit = (if \<not> IsRequired def name then '',omitempty'' else '''');
          tags = (if jsonTags
                  then '' '' @ [CHR 0x60] @ ''json:'' @ [CHR 0x22] @ name @ omit @ [CHR 0x22]
                       @ '' xml:'' @ [CHR 0x22] @ name @ omit @ [CHR 0x22] @ [CHR 0x60]
                  else '''');
          desc = (if Description field \<noteq> '''' then ''// '' @ Description field @ ''\<newline>''
                  else '''')
      in desc @ fname @ '' '' @ typedef @ tags @ ''\<newline>'')"

text \<open>The sizes that the termination proof of the three renderers compares.\<close>

lemma size_Type_less: "3 * size (Type d) + 2 < 3 * size d"
  by (cases d) simp

lemma def_weight_less:
  "3 * size (Type d) + (case Type d of Object fs \<Rightarrow> 0 | _ \<Rightarrow> 2) < 3 * size d"
proof -
  have "(case Type d of Object fs \<Rightarrow> 0 | _ \<Rightarrow> 2) \<le> (2::nat)"
    by (cases "Type d") simp_all
  then show ?thesis
    using size_Type_less [of d] by linarith
qed

lemma size_field_le:
  "map_of actual name = Some field
    \<Longrightarrow> size field \<le> size_list (size_prod (\<lambda>x. 0) size) actual"
  by (induction actual) (auto split: if_splits)

text \<open>
  \<open>GoTypeDef\<close> takes the attribute \<open>ds.Definition()\<close>, the only thing it reads of \<open>ds\<close>.
  \<open>GoTypeName(t, nil, tabs)\<close> is \<open>GoPackageTypeName(t, nil, false, "", tabs)\<close>.
\<close>

function GoTypeDef :: "attribute_definition \<Rightarrow> bool \<Rightarrow> string \<Rightarrow> int \<Rightarrow> bool \<Rightarrow> error + string"
  and GoPackageTypeRef :: "data_type \<Rightarrow> string list \<Rightarrow> bool \<Rightarrow> string \<Rightarrow> int \<Rightarrow> error + string"
  and GoPackageTypeName :: "data_type \<Rightarrow> string list \<Rightarrow> bool \<Rightarrow> string \<Rightarrow> int \<Rightarrow> error + string"
where
  "GoTypeDef (AttributeDefinition (Primitive k) dsc vals fp) versioned defPkg tabs jsonTags =
     GoPackageTypeName (Primitive k) [] False '''' tabs"
| "GoTypeDef (AttributeDefinition (Array elemType) dsc vals fp) versioned defPkg tabs jsonTags =
     and_then (GoTypeDef elemType versioned defPkg tabs jsonTags) (\<lambda>d.
       Inr (''[]'' @ (if IsObject (Type elemType) then ''*'' @ d else d)))"
| "GoTypeDef (AttributeDefinition (Hash keyType elemType) dsc vals fp) versioned defPkg tabs
       jsonTags =
     and_then (GoTypeDef keyType versioned defPkg tabs jsonTags) (\<lambda>keyDef0.
     and_then (GoTypeDef elemType versioned defPkg tabs jsonTags) (\<lambda>elemDef0.
       let keyDef = (if IsObject (Type keyType) then ''*'' @ keyDef0 else keyDef0);
           elemDef = (if IsObject (Type elemType) then ''*'' @ elemDef0 else elemDef0)
       in Inr (''map['' @ keyDef @ '']'' @ elemDef)))"
| "GoTypeDef (AttributeDefinition (Object actual) dsc vals fp) versioned defPkg tabs jsonTags =
     and_then
       (range_loop (sort (map_keys actual))
          (\<lambda>name buffer.
             case map_of actual name of
               None \<Rightarrow> Inl NilPointerDereference
             | Some field \<Rightarrow>
                 and_then (GoTypeDef field versioned defPkg (tabs + 1) jsonTags) (\<lambda>typedef.
                   Inr (WriteTabs buffer (tabs + 1)
                        @ GoTypeDef_field (AttributeDefinition (Object actual) dsc vals fp)
                            name field jsonTags typedef)))
          ''struct {\<newline>'')
       (\<lambda>buffer. Inr (WriteTabs buffer tabs @ ''}''))"
| "GoTypeDef (AttributeDefinition (UserType actual) dsc vals fp) versioned defPkg tabs jsonTags =
     GoPackageTypeName (UserType actual) (AllRequired (Definition actual)) versioned defPkg tabs"
| "GoTypeDef (AttributeDefinition (MediaType actual) dsc vals fp) versioned defPkg tabs jsonTags =
     GoPackageTypeName (MediaType actual) (AllRequired (Definition actual)) versioned defPkg tabs"
| "GoTypeDef (AttributeDefinition UnknownType dsc vals fp) versioned defPkg tabs jsonTags =
     Inl UnknownDataStructureType"
| "GoPackageTypeRef t required versioned defPkg tabs =
     (case t of
        UserType u \<Rightarrow>
          and_then (GoPackageTypeName t required versioned defPkg tabs) (\<lambda>n.
            Inr ((if IsObject t then ''*'' else '''') @ n))
      | MediaType u \<Rightarrow>
          and_then (GoPackageTypeName t required versioned defPkg tabs) (\<lambda>n.
            Inr ((if IsObject t then ''*'' else '''') @ n))
      | Object fs \<Rightarrow>
          and_then (GoPackageTypeName t required versioned defPkg tabs) (\<lambda>n. Inr (''*'' @ n))
      | _ \<Rightarrow> GoPackageTypeName t required versioned defPkg tabs)"
| "GoPackageTypeName (Primitive k) required versioned defPkg tabs = GoNativeType (Primitive k)"
| "GoPackageTypeName (Array elemType) required versioned defPkg tabs =
     and_then
       (GoPackageTypeRef (Type elemType) (AllRequired elemType) versioned defPkg (tabs + 1))
       (\<lambda>r. Inr (''[]'' @ r))"
| "GoPackageTypeName (Object actual) required versioned defPkg tabs =
     (let att = AttributeDefinition (Object actual) ''''
                  (if length required > 0 then [RequiredValidationDefinition required] else [])
                  False
      in GoTypeDef att versioned defPkg tabs False)"
| "GoPackageTypeName (Hash keyType elemType) required versioned defPkg tabs =
     and_then
       (GoPackageTypeRef (Type keyType) (AllRequired keyType) versioned defPkg (tabs + 1))
       (\<lambda>k.
     and_then
       (GoPackageTypeRef (Type elemType) (AllRequired elemType) versioned defPkg (tabs + 1))
       (\<lambda>e. Inr (''map['' @ k @ '']'' @ e)))"
| "GoPackageTypeName (UserType actual) required versioned defPkg tabs =
     Inr (PackagePrefix actual versioned defPkg @ Goify (TypeName actual) True)"
| "GoPackageTypeName (MediaType actual) required versioned defPkg tabs =
     Inr (PackagePrefix actual versioned defPkg @ Goify (TypeName actual) True)"
| "GoPackageTypeName UnknownType required versioned defPkg tabs = Inl UnknownTypeError"
  by pat_completeness auto

termination
proof (relation "measure (\<lambda>x. case x of
      Inl (d, _) \<Rightarrow> 3 * size (Type d) + (case Type d of Object _ \<Rightarrow> 0 | _ \<Rightarrow> 2)
    | Inr (Inl (t, _)) \<Rightarrow> 3 * size t + 2
    | Inr (Inr (t, _)) \<Rightarrow> 3 * size t + 1)", simp_all, goal_cases)
  case (1 elemType)
  show ?case using def_weight_less [of elemType] by simp
next
  case (2 keyType elemType)
  show ?case using def_weight_less [of keyType] by simp
next
  case (3 keyType elemType)
  show ?case using def_weight_less [of elemType] by simp
next
  case (4 actual name field)
  show ?case using def_weight_less [of field] size_field_le [OF 4(2)] by simp
next
  case (5 elemType)
  show ?case using size_Type_less [of elemType] by simp
next
  case (6 keyType elemType)
  show ?case using size_Type_less [of keyType] by simp
next
  case (7 keyType elemType)
  show ?case using size_Type_less [of elemType] by simp
qed

definition GoTypeRef :: "data_type \<Rightarrow> string list \<Rightarrow> int \<Rightarrow> error + string" where
  "GoTypeRef t required tabs = GoPackageTypeRef t required False '''' tabs"

definition GoTypeName :: "data_type \<Rightarrow> string list \<Rightarrow> int \<Rightarrow> error + string" where
  "GoTypeName t required tabs = GoPackageTypeName t required False '''' tabs"

text \<open>The kinds of node that the claims about references tell apart.\<close>

fun is_named_type :: "data_type \<Rightarrow> bool" where
  "is_named_type (UserType u) = True"
| "is_named_type (MediaType u) = True"
| "is_named_type t = False"

fun is_bare_object :: "data_type \<Rightarrow> bool" where
  "is_bare_object (Object fs) = True"
| "is_bare_object t = False"

fun is_value_kind :: "data_type \<Rightarrow> bool" where
  "is_value_kind (Primitive k) = True"
| "is_value_kind (Array e) = True"
| "is_value_kind (Hash k e) = True"
| "is_value_kind t = False"

text \<open>
  The bytes of an identifier: the ASCII digits and letters, the underscore, and the bytes of
  the UTF-8 encoding of a rune outside ASCII.
\<close>

definition identifier_byte :: "char \<Rightarrow> bool" where
  "identifier_byte c \<longleftrightarrow>
     (let n = (of_char c :: nat) in
      (0x30 \<le> n \<and> n \<le> 0x39) \<or> (0x41 \<le> n \<and> n \<le> 0x5A) \<or> n = 0x5F \<or>
      (0x61 \<le> n \<and> n \<le> 0x7A) \<or> 0x80 \<le> n)"

text \<open>
  The types and attributes in which no description holds a backquote, the byte that opens and
  closes a tag. A named type is rendered by its name alone, so its attribute is not looked at.
\<close>

fun backquote_free_type :: "data_type \<Rightarrow> bool"
  and backquote_free_attribute :: "attribute_definition \<Rightarrow> bool" where
  "backquote_free_type (Array e) = backquote_free_attribute e"
| "backquote_free_type (Object fs) = (\<forall>p \<in> set fs. backquote_free_attribute (snd p))"
| "backquote_free_type (Hash k e) = (backquote_free_attribute k \<and> backquote_free_attribute e)"
| "backquote_free_type (Primitive k) = True"
| "backquote_free_type (UserType u) = True"
| "backquote_free_type (MediaType u) = True"
| "backquote_free_type UnknownType = True"
| "backquote_free_attribute (AttributeDefinition t d vs fp) =
     (CHR 0x60 \<notin> set d \<and> backquote_free_type t)"

section \<open>The identifier sanitizer\<close>






section \<open>The package qualifier\<close>

text \<open>
  C8. \<open>PackagePrefix\<close> returns the empty prefix when the reference site is not versioned,
  the default package followed by a dot when the site is versioned and the type has no
  version, and the empty prefix when the site is versioned and the type has versions.
\<close>

theorem PackagePrefix_cases:
  "(\<not> versioned \<longrightarrow> PackagePrefix ut versioned pkg = '''') \<and>
   (versioned \<and> APIVersions ut = [] \<longrightarrow> PackagePrefix ut versioned pkg = pkg @ ''.'') \<and>
   (versioned \<and> APIVersions ut \<noteq> [] \<longrightarrow> PackagePrefix ut versioned pkg = '''')"
  by (simp add: PackagePrefix_def)

theorem PackagePrefix_cases_witness:
  "PackagePrefix (UserTypeDefinition (AttributeDefinition (Object []) '''' [] False) ''bottle'' [])
     False ''app'' = '''' \<and>
   PackagePrefix (UserTypeDefinition (AttributeDefinition (Object []) '''' [] False) ''bottle'' [])
     True ''app'' = ''app.'' \<and>
   PackagePrefix
     (UserTypeDefinition (AttributeDefinition (Object []) '''' [] False) ''bottle'' [''v1''])
     True ''app'' = ''''"
  using
    PackagePrefix_cases
      [of False "UserTypeDefinition (AttributeDefinition (Object []) '''' [] False) ''bottle'' []"
        "''app''"]
    PackagePrefix_cases
      [of True "UserTypeDefinition (AttributeDefinition (Object []) '''' [] False) ''bottle'' []"
        "''app''"]
    PackagePrefix_cases
      [of True
        "UserTypeDefinition (AttributeDefinition (Object []) '''' [] False) ''bottle'' [''v1'']"
        "''app''"]
  by simp

section \<open>The reference resolver and the name synthesizer\<close>

lemma and_then_Inr [simp]: "and_then (Inr v) f = f v"
  by (simp add: and_then_def)

lemma and_then_Inl [simp]: "and_then (Inl e) f = Inl e"
  by (simp add: and_then_def)

lemma and_then_eq_Inr: "and_then m f = Inr y \<longleftrightarrow> (\<exists>v. m = Inr v \<and> f v = Inr y)"
  by (cases m) simp_all

declare GoPackageTypeRef.simps [simp del]

text \<open>
  The reference of a type is its name, behind a star when the type is an object or a named
  type over an object.
\<close>

lemma GoPackageTypeRef_star:
  "GoPackageTypeRef t required versioned defPkg tabs =
     and_then (GoPackageTypeName t required versioned defPkg tabs)
       (\<lambda>n. Inr ((if IsObject t then ''*'' else '''') @ n))"
proof (cases t)
  case (Primitive k)
  then show ?thesis
    by (cases "GoNativeType (Primitive k)") (simp_all add: GoPackageTypeRef.simps)
next
  case (Array e)
  then show ?thesis
    by (cases "GoPackageTypeName (Array e) required versioned defPkg tabs")
      (simp_all add: GoPackageTypeRef.simps del: GoPackageTypeName.simps)
next
  case (Hash k e)
  then show ?thesis
    by (cases "GoPackageTypeName (Hash k e) required versioned defPkg tabs")
      (simp_all add: GoPackageTypeRef.simps del: GoPackageTypeName.simps)
qed (simp_all add: GoPackageTypeRef.simps)

text \<open>
  C5. For a named type over an object and for a bare object, \<open>GoPackageTypeRef\<close> returns the
  type name behind a star; for a primitive, an array, a hash and a named type that is not over
  an object it returns the type name as it is. \<open>GoTypeRef\<close> is the same function in the
  default package.
\<close>

theorem GoPackageTypeRef_indirection:
  "(is_named_type t \<and> IsObject t \<or> is_bare_object t \<longrightarrow>
      GoPackageTypeRef t required versioned defPkg tabs =
        and_then (GoPackageTypeName t required versioned defPkg tabs) (\<lambda>n. Inr (''*'' @ n)) \<and>
      GoTypeRef t required tabs =
        and_then (GoTypeName t required tabs) (\<lambda>n. Inr (''*'' @ n))) \<and>
   (is_value_kind t \<or> is_named_type t \<and> \<not> IsObject t \<longrightarrow>
      GoPackageTypeRef t required versioned defPkg tabs =
        GoPackageTypeName t required versioned defPkg tabs \<and>
      GoTypeRef t required tabs = GoTypeName t required tabs)"
proof -
  have obj: "IsObject t" if "is_bare_object t"
    using that by (cases t) simp_all
  have val: "\<not> IsObject t" if "is_value_kind t"
    using that by (cases t) simp_all
  have same: "and_then m Inr = m" for m :: "error + string"
    by (cases m) simp_all
  show ?thesis
    using obj val by (auto simp add: GoPackageTypeRef_star GoTypeRef_def GoTypeName_def same)
qed

theorem GoPackageTypeRef_indirection_witness:
  "GoPackageTypeRef
     (UserType (UserTypeDefinition (AttributeDefinition (Object []) '''' [] False) ''user'' []))
     [] True ''app'' 0 = Inr ''*app.User'' \<and>
   GoTypeRef (Object []) [] 0 = Inr ''*struct {\<newline>}'' \<and>
   GoPackageTypeRef (Array (AttributeDefinition (Primitive StringKind) '''' [] False))
     [] True ''app'' 0 = Inr ''[]string'' \<and>
   GoTypeRef
     (MediaType (UserTypeDefinition (AttributeDefinition
        (Array (AttributeDefinition (Primitive IntegerKind) '''' [] False)) '''' [] False)
        ''ids'' []))
     [] 0 = Inr ''Ids''"
proof -
  have n1: "GoPackageTypeName
     (UserType (UserTypeDefinition (AttributeDefinition (Object []) '''' [] False) ''user'' []))
     [] True ''app'' 0 = Inr ''app.User''"
    by code_simp
  have n2: "GoTypeName (Object []) [] 0 = Inr ''struct {\<newline>}''"
    by code_simp
  have n3: "GoPackageTypeName (Array (AttributeDefinition (Primitive StringKind) '''' [] False))
     [] True ''app'' 0 = Inr ''[]string''"
    by code_simp
  have n4: "GoTypeName
     (MediaType (UserTypeDefinition (AttributeDefinition
        (Array (AttributeDefinition (Primitive IntegerKind) '''' [] False)) '''' [] False)
        ''ids'' []))
     [] 0 = Inr ''Ids''"
    by code_simp
  show ?thesis
    using
      GoPackageTypeRef_indirection [of
        "UserType (UserTypeDefinition (AttributeDefinition (Object []) '''' [] False) ''user'' [])"
        "[]" True "''app''" 0]
      GoPackageTypeRef_indirection [of "Object []" "[]" True "''app''" 0]
      GoPackageTypeRef_indirection [of
        "Array (AttributeDefinition (Primitive StringKind) '''' [] False)" "[]" True "''app''" 0]
      GoPackageTypeRef_indirection [of
        "MediaType (UserTypeDefinition (AttributeDefinition
           (Array (AttributeDefinition (Primitive IntegerKind) '''' [] False)) '''' [] False)
           ''ids'' [])" "[]" True "''app''" 0]
    unfolding n1 n2 n3 n4
    by (simp del: GoPackageTypeName.simps)
qed

text \<open>
  C1, as the claim states it, fails: the name of an array of a named type over an object is
  \<open>[]*User\<close>, not \<open>[]\<close> followed by the name \<open>User\<close> of the element type.
\<close>

theorem GoPackageTypeName_Array_counterexample:
  "GoPackageTypeName
     (Array (AttributeDefinition
        (UserType (UserTypeDefinition (AttributeDefinition (Object []) '''' [] False) ''user'' []))
        '''' [] False))
     [] False '''' 0 = Inr ''[]*User'' \<and>
   GoPackageTypeName
     (UserType (UserTypeDefinition (AttributeDefinition (Object []) '''' [] False) ''user'' []))
     [] False '''' 1 = Inr ''User''"
  by code_simp

text \<open>
  C1, amended. The name of an array is \<open>[]\<close> followed by the reference of the element type,
  and the name of a hash is built from the references of the key and element types: each is
  the type name of the child, computed with the required names of the child attribute and
  with \<open>tabs + 1\<close>, behind a star when the child is an object or a named type over an
  object.
\<close>

theorem GoPackageTypeName_Array_Hash:
  "GoPackageTypeName (Array elemType) required versioned defPkg tabs =
     and_then
       (GoPackageTypeName (Type elemType) (AllRequired elemType) versioned defPkg (tabs + 1))
       (\<lambda>n. Inr (''[]'' @ (if IsObject (Type elemType) then ''*'' else '''') @ n)) \<and>
   GoPackageTypeName (Hash keyType elemType) required versioned defPkg tabs =
     and_then
       (GoPackageTypeName (Type keyType) (AllRequired keyType) versioned defPkg (tabs + 1))
       (\<lambda>k.
     and_then
       (GoPackageTypeName (Type elemType) (AllRequired elemType) versioned defPkg (tabs + 1))
       (\<lambda>e. Inr (''map['' @ (if IsObject (Type keyType) then ''*'' else '''') @ k @ '']''
                  @ (if IsObject (Type elemType) then ''*'' else '''') @ e)))"
proof -
  have assoc: "and_then (and_then m f) g = and_then m (\<lambda>v. and_then (f v) g)"
    for m :: "error + string" and f :: "string \<Rightarrow> error + string"
      and g :: "string \<Rightarrow> error + string"
    by (cases m) simp_all
  show ?thesis
    by (simp add: GoPackageTypeRef_star assoc)
qed

theorem GoPackageTypeName_Array_Hash_witness:
  "GoPackageTypeName
     (Array (AttributeDefinition
        (UserType (UserTypeDefinition (AttributeDefinition (Object []) '''' [] False) ''user'' []))
        '''' [] False))
     [] False '''' 0 = Inr ''[]*User'' \<and>
   GoPackageTypeName
     (Hash (AttributeDefinition (Primitive StringKind) '''' [] False)
        (AttributeDefinition (Primitive IntegerKind) '''' [] False))
     [] False '''' 0 = Inr ''map[string]int'' \<and>
   GoPackageTypeName
     (Array (AttributeDefinition
        (Object [(''id'', AttributeDefinition (Primitive IntegerKind) '''' [] False)])
        '''' [RequiredValidationDefinition [''id'']] False))
     [''other''] False '''' 0 =
     Inr (''[]*struct {\<newline>'' @ [CHR 0x09, CHR 0x09] @ ''ID int\<newline>'' @ [CHR 0x09] @ ''}'') \<and>
   GoPackageTypeName
     (Array (AttributeDefinition
        (Object [(''id'', AttributeDefinition (Primitive IntegerKind) '''' [] False)])
        '''' [] False))
     [''id''] False '''' 0 =
     Inr (''[]*struct {\<newline>'' @ [CHR 0x09, CHR 0x09] @ ''ID *int\<newline>'' @ [CHR 0x09] @ ''}'')"
  using
    GoPackageTypeName_Array_Hash [of
      "AttributeDefinition
        (UserType (UserTypeDefinition (AttributeDefinition (Object []) '''' [] False) ''user'' []))
        '''' [] False" "[]" False "''''" 0
      "AttributeDefinition (Primitive StringKind) '''' [] False"]
    GoPackageTypeName_Array_Hash [of
      "AttributeDefinition (Primitive IntegerKind) '''' [] False" "[]" False "''''" 0
      "AttributeDefinition (Primitive StringKind) '''' [] False"]
    GoPackageTypeName_Array_Hash [of
      "AttributeDefinition
        (Object [(''id'', AttributeDefinition (Primitive IntegerKind) '''' [] False)])
        '''' [RequiredValidationDefinition [''id'']] False" "[''other'']" False "''''" 0
      "AttributeDefinition (Primitive StringKind) '''' [] False"]
    GoPackageTypeName_Array_Hash [of
      "AttributeDefinition
        (Object [(''id'', AttributeDefinition (Primitive IntegerKind) '''' [] False)])
        '''' [] False" "[''id'']" False "''''" 0
      "AttributeDefinition (Primitive StringKind) '''' [] False"]
  by code_simp

section \<open>The definition of an object\<close>

text \<open>
  A loop whose every round appends a text to the buffer returns the buffer followed by the
  texts of the rounds, in the order of the list.
\<close>

lemma range_loop_append:
  assumes "\<And>x buf. x \<in> set xs \<Longrightarrow> body x buf = Inr (buf @ g x)"
  shows "range_loop xs body buf = Inr (buf @ concat (map g xs))"
  using assms by (induction xs arbitrary: buf) simp_all

text \<open>
  The sorted keys of an object are the sorted list of the domain of the map: they do not
  depend on the order in which the map enumerates its keys.
\<close>

lemma sort_map_keys: "sort (map_keys actual) = sorted_list_of_set (dom (map_of actual))"
  by (simp only: map_keys_def dom_map_of_conv_image_fst list.set_map [symmetric]
      sorted_list_of_set_sort_remdups)

lemma set_sort_map_keys: "set (sort (map_keys actual)) = dom (map_of actual)"
  by (simp add: map_keys_def dom_map_of_conv_image_fst)

declare GoTypeDef.simps(4) [simp del]

text \<open>
  When the type of every field renders, the definition of an object is the opening line, one
  text for each key in sorted order, made of the tabs and of the field, and the closing brace
  behind its tabs.
\<close>

lemma GoTypeDef_Object_Inr:
  assumes "\<And>name. name \<in> dom (map_of actual) \<Longrightarrow>
    map_of actual name = Some (field name) \<and>
    GoTypeDef (field name) versioned defPkg (tabs + 1) jsonTags = Inr (typedef name)"
  shows "GoTypeDef (AttributeDefinition (Object actual) dsc vals fp) versioned defPkg tabs
           jsonTags =
         Inr (''struct {\<newline>''
              @ concat (map (\<lambda>name. WriteTabs [] (tabs + 1)
                    @ GoTypeDef_field (AttributeDefinition (Object actual) dsc vals fp) name
                        (field name) jsonTags (typedef name))
                  (sorted_list_of_set (dom (map_of actual))))
              @ WriteTabs [] tabs @ ''}'')"
proof -
  let ?def = "AttributeDefinition (Object actual) dsc vals fp"
  let ?g = "\<lambda>name. WriteTabs [] (tabs + 1)
              @ GoTypeDef_field ?def name (field name) jsonTags (typedef name)"
  let ?body = "\<lambda>name buffer.
             case map_of actual name of
               None \<Rightarrow> Inl NilPointerDereference
             | Some field \<Rightarrow>
                 and_then (GoTypeDef field versioned defPkg (tabs + 1) jsonTags) (\<lambda>typedef.
                   Inr (WriteTabs buffer (tabs + 1)
                        @ GoTypeDef_field ?def name field jsonTags typedef))"
  have round: "?body name buffer = Inr (buffer @ ?g name)"
    if "name \<in> set (sort (map_keys actual))" for name buffer
  proof -
    from that have "name \<in> dom (map_of actual)"
      by (simp only: set_sort_map_keys)
    from assms [OF this] show ?thesis
      by (simp add: WriteTabs_def)
  qed
  have "range_loop (sort (map_keys actual)) ?body ''struct {\<newline>'' =
          Inr (''struct {\<newline>'' @ concat (map ?g (sort (map_keys actual))))"
    using round by (rule range_loop_append)
  then show ?thesis
    unfolding GoTypeDef.simps(4) sort_map_keys by (simp add: WriteTabs_def)
qed

text \<open>What a field of an object reads of the object and of the field.\<close>

lemma GoTypeDef_field_eq:
  assumes "IsObject (Type field) = IsObject (Type field')"
    and "IsPrimitivePointer def name = IsPrimitivePointer def' name"
    and "IsRequired def name = IsRequired def' name"
    and "Description field = Description field'"
  shows "GoTypeDef_field def name field jsonTags typedef =
         GoTypeDef_field def' name field' jsonTags typedef"
  unfolding GoTypeDef_field_def assms ..

lemma IsPrimitivePointer_map_of:
  assumes "map_of actual' = map_of actual"
  shows "IsPrimitivePointer (AttributeDefinition (Object actual') dsc vals fp) name =
         IsPrimitivePointer (AttributeDefinition (Object actual) dsc vals fp) name"
  by (simp add: IsPrimitivePointer_def IsRequired_def AllRequired_def assms
      split: option.splits)

text \<open>
  Two objects that hold the same map from names to fields, whatever the order in which each
  enumerates it, have the same definition.
\<close>

lemma GoTypeDef_Object_map_of:
  assumes "map_of actual' = map_of actual"
  shows "GoTypeDef (AttributeDefinition (Object actual') dsc vals fp) versioned defPkg tabs
           jsonTags =
         GoTypeDef (AttributeDefinition (Object actual) dsc vals fp) versioned defPkg tabs
           jsonTags"
proof -
  have field: "GoTypeDef_field (AttributeDefinition (Object actual') dsc vals fp) name field
                 jsonTags t =
               GoTypeDef_field (AttributeDefinition (Object actual) dsc vals fp) name field
                 jsonTags t" for name field t
    by (rule GoTypeDef_field_eq)
      (simp_all add: IsPrimitivePointer_map_of [OF assms] IsRequired_def AllRequired_def)
  show ?thesis
    unfolding GoTypeDef.simps(4) sort_map_keys assms field ..
qed

text \<open>The text of a field, part by part: the lines 64 to 80 of the source.\<close>

lemma GoTypeDef_field_text:
  "GoTypeDef_field def name field jsonTags typedef =
     (if Description field \<noteq> '''' then ''// '' @ Description field @ ''\<newline>'' else '''')
     @ Goify name True @ '' ''
     @ (if IsObject (Type field) \<or> IsPrimitivePointer def name then ''*'' else '''') @ typedef
     @ (if jsonTags
        then '' '' @ [CHR 0x60] @ ''json:'' @ [CHR 0x22] @ name
             @ (if IsRequired def name then '''' else '',omitempty'') @ [CHR 0x22]
             @ '' xml:'' @ [CHR 0x22] @ name
             @ (if IsRequired def name then '''' else '',omitempty'') @ [CHR 0x22] @ [CHR 0x60]
        else '''')
     @ ''\<newline>''"
  by (simp add: GoTypeDef_field_def Let_def)

text \<open>Two elements of a sorted list stand in the list in their order.\<close>

lemma sorted_split_two:
  fixes n1 n2 :: "'a :: linorder"
  assumes "sorted xs" and "n1 \<in> set xs" and "n2 \<in> set xs" and "n1 < n2"
  shows "\<exists>as bs cs. xs = as @ n1 # bs @ n2 # cs"
proof -
  from \<open>n1 \<in> set xs\<close> obtain as rest where xs: "xs = as @ n1 # rest"
    by (auto dest: split_list)
  from \<open>sorted xs\<close> have "\<forall>x \<in> set as. x \<le> n1"
    unfolding xs by (simp add: sorted_append)
  with \<open>n1 < n2\<close> have "n2 \<notin> set as"
    by auto
  with \<open>n2 \<in> set xs\<close> \<open>n1 < n2\<close> have "n2 \<in> set rest"
    unfolding xs by auto
  then obtain bs cs where "rest = bs @ n2 # cs"
    by (auto dest: split_list)
  with xs show ?thesis
    by blast
qed

section \<open>The bytes of an identifier\<close>

text \<open>
  The rune that \<open>Goify\<close> writes for a letter or a digit among the code points 0..255, as it
  is or after \<open>ToUpper\<close> or \<open>ToLower\<close>, has an encoding of one or two bytes, and is an
  ASCII letter or digit when it is ASCII.
\<close>

lemma written_rune:
  assumes "r < 256" and "IsLetter r \<or> IsDigit r"
    and "r' = r \<or> r' = ToUpper r \<or> r' = ToLower r"
  shows "r' < 0x800 \<and>
    (r' < 0x80 \<longrightarrow>
       (0x30 \<le> r' \<and> r' \<le> 0x39) \<or> (0x41 \<le> r' \<and> r' \<le> 0x5A) \<or> (0x61 \<le> r' \<and> r' \<le> 0x7A))"
proof -
  have up: "ToUpper r < 0x800"
    using assms(1) unfolding ToUpper_def by (simp split: if_splits, presburger)
  have low: "ToLower r < 0x800"
    using assms(1) unfolding ToLower_def by (simp split: if_splits)
  have ascii: "(0x30 \<le> r \<and> r \<le> 0x39) \<or> (0x41 \<le> r \<and> r \<le> 0x5A) \<or> (0x61 \<le> r \<and> r \<le> 0x7A)"
    if "r < 0x80"
    using that assms(2) unfolding IsLetter_def IsDigit_def by presburger
  have ascii_up: "(0x30 \<le> ToUpper r \<and> ToUpper r \<le> 0x39) \<or>
      (0x41 \<le> ToUpper r \<and> ToUpper r \<le> 0x5A) \<or> (0x61 \<le> ToUpper r \<and> ToUpper r \<le> 0x7A)"
    if "ToUpper r < 0x80"
  proof (cases "r < 0x80")
    case True
    from ascii [OF this] show ?thesis
      unfolding ToUpper_def by (simp split: if_splits, presburger)
  next
    case False
    with that show ?thesis
      unfolding ToUpper_def by (simp split: if_splits, presburger)
  qed
  have ascii_low: "(0x30 \<le> ToLower r \<and> ToLower r \<le> 0x39) \<or>
      (0x41 \<le> ToLower r \<and> ToLower r \<le> 0x5A) \<or> (0x61 \<le> ToLower r \<and> ToLower r \<le> 0x7A)"
    if "ToLower r < 0x80"
  proof (cases "r < 0x80")
    case True
    from ascii [OF this] show ?thesis
      unfolding ToLower_def by (simp split: if_splits, presburger)
  next
    case False
    with that show ?thesis
      unfolding ToLower_def by (simp split: if_splits)
  qed
  from assms(3) show ?thesis
    using assms(1) up low ascii ascii_up ascii_low by (elim disjE) simp_all
qed

lemma WriteRune_bytes:
  assumes "r < 0x800"
    and "r < 0x80 \<longrightarrow>
       (0x30 \<le> r \<and> r \<le> 0x39) \<or> (0x41 \<le> r \<and> r \<le> 0x5A) \<or> (0x61 \<le> r \<and> r \<le> 0x7A)"
    and "\<forall>c \<in> set b. identifier_byte c"
  shows "\<forall>c \<in> set (WriteRune b r). identifier_byte c"
proof (cases "r < 0x80")
  case True
  then have "r mod 256 = r"
    by simp
  with True assms(2) have "identifier_byte (char_of r)"
    unfolding identifier_byte_def Let_def of_char_of by presburger
  with True assms(3) show ?thesis
    by (simp add: WriteRune_def)
next
  case False
  have "r div 0x40 < 0x20" "r mod 0x40 < 0x40"
    using assms(1) by simp_all
  then have "(0xC0 + r div 0x40) mod 256 = 0xC0 + r div 0x40"
    "(0x80 + r mod 0x40) mod 256 = 0x80 + r mod 0x40"
    by simp_all
  then have "identifier_byte (char_of (0xC0 + r div 0x40))"
    "identifier_byte (char_of (0x80 + r mod 0x40))"
    unfolding identifier_byte_def Let_def of_char_of by simp_all
  with False assms(1,3) show ?thesis
    by (simp add: WriteRune_def)
qed

lemma Goify_loop_bytes:
  "\<forall>c \<in> set b. identifier_byte c
    \<Longrightarrow> \<forall>c \<in> set (fst (Goify_loop cs firstUpper (b, firstWritten, nextUpper))).
          identifier_byte c"
proof (induction cs arbitrary: b firstWritten nextUpper)
  case Nil
  then show ?case by simp
next
  case (Cons c cs)
  let ?r = "rune_of c"
  have small: "?r < 256"
    by (simp add: rune_of_def)
  consider (underscore) "?r = 0x5F"
    | (written) "?r \<noteq> 0x5F" "IsLetter ?r \<or> IsDigit ?r"
    | (skipped) "?r \<noteq> 0x5F" "\<not> (IsLetter ?r \<or> IsDigit ?r)"
    by blast
  then show ?case
  proof cases
    case underscore
    then have "Goify_loop (c # cs) firstUpper (b, firstWritten, nextUpper) =
        Goify_loop cs firstUpper (b, firstWritten, True)"
      by (simp add: Let_def)
    with Cons.IH [OF Cons.prems] show ?thesis
      by simp
  next
    case written
    have bytes: "\<forall>c \<in> set (WriteRune b r'). identifier_byte c"
      if "r' = ?r \<or> r' = ToUpper ?r \<or> r' = ToLower ?r" for r'
      using written_rune [OF small written(2) that] Cons.prems
      by (intro WriteRune_bytes) blast+
    from written have "\<exists>r' fw nu. (r' = ?r \<or> r' = ToUpper ?r \<or> r' = ToLower ?r) \<and>
        Goify_loop (c # cs) firstUpper (b, firstWritten, nextUpper) =
          Goify_loop cs firstUpper (WriteRune b r', fw, nu)"
      by (simp add: Let_def) blast
    then obtain r' fw nu where "r' = ?r \<or> r' = ToUpper ?r \<or> r' = ToLower ?r"
      and "Goify_loop (c # cs) firstUpper (b, firstWritten, nextUpper) =
          Goify_loop cs firstUpper (WriteRune b r', fw, nu)"
      by blast
    with Cons.IH [OF bytes, of r' fw nu] show ?thesis
      by simp
  next
    case skipped
    then have "Goify_loop (c # cs) firstUpper (b, firstWritten, nextUpper) =
        Goify_loop cs firstUpper (b, firstWritten, nextUpper)"
      by (simp add: Let_def)
    with Cons.IH [OF Cons.prems] show ?thesis
      by simp
  qed
qed

text \<open>Every byte of the result of \<open>Goify\<close> is the byte of an identifier, and there is one.\<close>

lemma Goify_bytes: "c \<in> set (Goify str firstUpper) \<Longrightarrow> identifier_byte c"
proof -
  let ?b = "fst (Goify_loop str firstUpper ([], False, False))"
  have loop: "\<forall>c \<in> set ?b. identifier_byte c"
    by (rule Goify_loop_bytes) simp
  have fixed: "\<forall>c \<in> set ''OK''. identifier_byte c" "\<forall>c \<in> set ''ID''. identifier_byte c"
    "\<forall>c \<in> set ''_v''. identifier_byte c" "identifier_byte CHR ''_''"
    by (simp_all add: identifier_byte_def)
  have "Goify str firstUpper = ''OK'' \<or> Goify str firstUpper = ''ID'' \<or>
      Goify str firstUpper = ''_v'' \<or> Goify str firstUpper = ?b @ ''_'' \<or>
      Goify str firstUpper = ?b"
    unfolding Goify_def Let_def by (simp del: Goify_loop.simps)
  moreover assume "c \<in> set (Goify str firstUpper)"
  ultimately show ?thesis
    using loop fixed by (elim disjE) auto
qed

lemma Goify_not_empty: "Goify str firstUpper \<noteq> []"
  unfolding Goify_def Let_def by (simp del: Goify_loop.simps)

lemma Goify_first_byte: "identifier_byte (hd (Goify str firstUpper))"
  using Goify_bytes [of "hd (Goify str firstUpper)" str firstUpper]
    Goify_not_empty [of str firstUpper]
  by simp

section \<open>The texts without a backquote\<close>

lemma range_loop_invariant:
  assumes "range_loop xs body buf = Inr r" and "Q buf"
    and "\<And>x b b'. x \<in> set xs \<Longrightarrow> Q b \<Longrightarrow> body x b = Inr b' \<Longrightarrow> Q b'"
  shows "Q r"
  using assms
proof (induction xs arbitrary: buf)
  case Nil
  then show ?case by simp
next
  case (Cons x xs)
  from Cons.prems(1) obtain b' where step: "body x buf = Inr b'"
    and rest: "range_loop xs body b' = Inr r"
    by (auto simp add: and_then_eq_Inr)
  from Cons.prems(3) [OF _ Cons.prems(2) step] have "Q b'"
    by simp
  with rest show ?case
    using Cons.prems(3) by (intro Cons.IH) auto
qed

lemma GoNativeType_Primitive_no_backquote:
  "GoNativeType (Primitive k) = Inr s \<Longrightarrow> CHR 0x60 \<notin> set s"
  by (cases k) auto

lemma Goify_no_backquote: "CHR 0x60 \<notin> set (Goify str firstUpper)"
proof
  assume "CHR 0x60 \<in> set (Goify str firstUpper)"
  then have "identifier_byte (CHR 0x60)"
    by (rule Goify_bytes)
  then show False
    by (simp add: identifier_byte_def)
qed

lemma type_name_no_backquote:
  "CHR 0x60 \<notin> set defPkg
    \<Longrightarrow> CHR 0x60 \<notin> set (PackagePrefix actual versioned defPkg @ Goify (TypeName actual) True)"
  by (simp add: PackagePrefix_def Goify_no_backquote)

lemma GoTypeDef_field_no_backquote:
  "CHR 0x60 \<notin> set (Description field) \<Longrightarrow> CHR 0x60 \<notin> set typedef
    \<Longrightarrow> CHR 0x60 \<notin> set (GoTypeDef_field def name field False typedef)"
  by (simp add: GoTypeDef_field_text Goify_no_backquote)

lemma backquote_free_field:
  "backquote_free_type (Object actual) \<Longrightarrow> map_of actual name = Some field
    \<Longrightarrow> backquote_free_attribute field"
proof -
  assume free: "backquote_free_type (Object actual)" and "map_of actual name = Some field"
  then have "(name, field) \<in> set actual"
    by (intro map_of_SomeD)
  with free have "backquote_free_attribute (snd (name, field))"
    unfolding backquote_free_type.simps by (rule bspec)
  then show ?thesis
    by simp
qed

lemma Type_Description_backquote_free:
  "backquote_free_attribute a
    \<Longrightarrow> backquote_free_type (Type a) \<and> CHR 0x60 \<notin> set (Description a)"
  by (cases a) simp

text \<open>
  With the tags disabled, a backquote in the text of a type can only come from a description
  or from the name of the default package.
\<close>

lemma no_backquote:
  assumes pkg: "CHR 0x60 \<notin> set defPkg"
  shows "backquote_free_type t \<Longrightarrow>
      (GoPackageTypeName t required versioned defPkg tabs = Inr s \<longrightarrow> CHR 0x60 \<notin> set s) \<and>
      (GoTypeDef (AttributeDefinition t dsc vals fp) versioned defPkg tabs False = Inr s \<longrightarrow>
         CHR 0x60 \<notin> set s)"
    and "backquote_free_attribute a \<Longrightarrow>
      (GoTypeDef a versioned defPkg tabs False = Inr s \<longrightarrow> CHR 0x60 \<notin> set s) \<and>
      (GoPackageTypeName (Type a) required versioned defPkg tabs = Inr s \<longrightarrow>
         CHR 0x60 \<notin> set s)"
proof (induction t and a
    arbitrary: required versioned tabs s dsc vals fp and required versioned tabs s
    rule: backquote_free_type_backquote_free_attribute.induct)
  case (1 e)
  from 1 have e: "backquote_free_attribute e"
    by simp
  note IH = 1(1) [OF e]
  show ?case
    using IH by (auto simp add: GoPackageTypeRef_star and_then_eq_Inr)
next
  case (2 fs)
  have rendered: "CHR 0x60 \<notin> set s"
    if "GoTypeDef (AttributeDefinition (Object fs) dsc vals fp) versioned defPkg tabs False =
      Inr s" for dsc vals fp versioned tabs s
  proof -
    let ?def = "AttributeDefinition (Object fs) dsc vals fp"
    let ?body = "\<lambda>name buffer.
             case map_of fs name of
               None \<Rightarrow> Inl NilPointerDereference
             | Some field \<Rightarrow>
                 and_then (GoTypeDef field versioned defPkg (tabs + 1) False) (\<lambda>typedef.
                   Inr (WriteTabs buffer (tabs + 1)
                        @ GoTypeDef_field ?def name field False typedef))"
    from that obtain buffer
      where loop: "range_loop (sort (map_keys fs)) ?body ''struct {\<newline>'' = Inr buffer"
        and s: "s = WriteTabs buffer tabs @ ''}''"
      unfolding GoTypeDef.simps(4) by (auto simp add: and_then_eq_Inr)
    have "CHR 0x60 \<notin> set buffer"
    proof (rule range_loop_invariant [OF loop])
      show "CHR 0x60 \<notin> set ''struct {\<newline>''"
        by simp
    next
      fix name b b'
      assume b: "CHR 0x60 \<notin> set b" and step: "?body name b = Inr b'"
      from step obtain field td where field: "map_of fs name = Some field"
        and td: "GoTypeDef field versioned defPkg (tabs + 1) False = Inr td"
        and b': "b' = WriteTabs b (tabs + 1) @ GoTypeDef_field ?def name field False td"
        by (auto simp add: and_then_eq_Inr split: option.splits)
      from field have member: "(name, field) \<in> set fs"
        by (rule map_of_SomeD)
      from backquote_free_field [OF 2(2) field] have free: "backquote_free_attribute field"
        .
      from 2(1) [OF member] free td have "CHR 0x60 \<notin> set td"
        by simp
      moreover from free have "CHR 0x60 \<notin> set (Description field)"
        by (simp add: Type_Description_backquote_free)
      ultimately have "CHR 0x60 \<notin> set (GoTypeDef_field ?def name field False td)"
        by (rule GoTypeDef_field_no_backquote [rotated])
      with b show "CHR 0x60 \<notin> set b'"
        unfolding b' by (simp add: WriteTabs_def)
    qed
    then show ?thesis
      unfolding s by (simp add: WriteTabs_def)
  qed
  then show ?case
    by (simp add: Let_def)
next
  case (3 k e)
  from 3 have k: "backquote_free_attribute k" and e: "backquote_free_attribute e"
    by simp_all
  note IH = 3(1) [OF k] 3(2) [OF e]
  show ?case
    using IH by (auto simp add: GoPackageTypeRef_star and_then_eq_Inr Let_def)
next
  case (4 k)
  show ?case
    by (auto dest: GoNativeType_Primitive_no_backquote simp del: GoNativeType.simps)
next
  case (5 u)
  show ?case
    using type_name_no_backquote [OF pkg] by auto
next
  case (6 u)
  show ?case
    using type_name_no_backquote [OF pkg] by auto
next
  case 7
  show ?case
    by simp
next
  case (8 t d vs fp)
  from 8 have t: "backquote_free_type t"
    by simp
  from 8(1) [OF t] show ?case
    by simp
qed

section \<open>Two names with one identifier\<close>

text \<open>
  C2, as the claim states it, fails: \<open>GoTypeDef\<close> has no check of the identifiers. The
  names \<open>aB\<close> and \<open>a_b\<close> are distinct and \<open>Goify\<close> maps both to \<open>AB\<close>; the definition
  of the object that holds them is returned, with two fields named \<open>AB\<close>.
\<close>

theorem GoTypeDef_Object_collision_counterexample:
  "''aB'' \<noteq> ''a_b'' \<and> Goify ''aB'' True = ''AB'' \<and> Goify ''a_b'' True = ''AB'' \<and>
   GoTypeDef
     (AttributeDefinition
        (Object [(''a_b'', AttributeDefinition (Primitive StringKind) '''' [] False),
                 (''aB'', AttributeDefinition (Primitive StringKind) '''' [] False)])
        '''' [] False)
     False '''' 0 False =
     Inr (''struct {\<newline>'' @ [CHR 0x09] @ ''AB *string\<newline>'' @ [CHR 0x09] @ ''AB *string\<newline>''
          @ ''}'')"
  by code_simp

text \<open>
  C2, amended. Two names of an object that \<open>Goify\<close> maps to the same identifier do not
  make \<open>GoTypeDef\<close> fail, and neither is renamed: when the type of every field renders,
  the definition is returned, and it holds the text of every field in the sorted order of the
  names, the text of the smaller name \<open>n1\<close> before the text of the larger name \<open>n2\<close>, each
  with the shared identifier after its description.
\<close>

theorem GoTypeDef_Object_collision:
  "(\<forall>name \<in> dom (map_of actual).
       map_of actual name = Some (field name) \<and>
       GoTypeDef (field name) versioned defPkg (tabs + 1) jsonTags = Inr (typedef name)) \<and>
   n1 \<in> dom (map_of actual) \<and> n2 \<in> dom (map_of actual) \<and> n1 < n2 \<and>
   Goify n1 True = Goify n2 True \<longrightarrow>
   (\<exists>as bs cs tail1 tail2.
      sorted_list_of_set (dom (map_of actual)) = as @ n1 # bs @ n2 # cs \<and>
      GoTypeDef_field (AttributeDefinition (Object actual) dsc vals fp) n1 (field n1) jsonTags
          (typedef n1) =
        (if Description (field n1) \<noteq> '''' then ''// '' @ Description (field n1) @ ''\<newline>''
         else '''')
        @ Goify n1 True @ '' '' @ tail1 \<and>
      GoTypeDef_field (AttributeDefinition (Object actual) dsc vals fp) n2 (field n2) jsonTags
          (typedef n2) =
        (if Description (field n2) \<noteq> '''' then ''// '' @ Description (field n2) @ ''\<newline>''
         else '''')
        @ Goify n1 True @ '' '' @ tail2 \<and>
      GoTypeDef (AttributeDefinition (Object actual) dsc vals fp) versioned defPkg tabs jsonTags =
        Inr (''struct {\<newline>''
             @ concat (map (\<lambda>name. WriteTabs [] (tabs + 1)
                   @ GoTypeDef_field (AttributeDefinition (Object actual) dsc vals fp) name
                       (field name) jsonTags (typedef name)) as)
             @ WriteTabs [] (tabs + 1)
             @ GoTypeDef_field (AttributeDefinition (Object actual) dsc vals fp) n1 (field n1)
                 jsonTags (typedef n1)
             @ concat (map (\<lambda>name. WriteTabs [] (tabs + 1)
                   @ GoTypeDef_field (AttributeDefinition (Object actual) dsc vals fp) name
                       (field name) jsonTags (typedef name)) bs)
             @ WriteTabs [] (tabs + 1)
             @ GoTypeDef_field (AttributeDefinition (Object actual) dsc vals fp) n2 (field n2)
                 jsonTags (typedef n2)
             @ concat (map (\<lambda>name. WriteTabs [] (tabs + 1)
                   @ GoTypeDef_field (AttributeDefinition (Object actual) dsc vals fp) name
                       (field name) jsonTags (typedef name)) cs)
             @ WriteTabs [] tabs @ ''}''))"
proof (intro impI, elim conjE)
  let ?def = "AttributeDefinition (Object actual) dsc vals fp"
  let ?line = "\<lambda>name. WriteTabs [] (tabs + 1)
                   @ GoTypeDef_field ?def name (field name) jsonTags (typedef name)"
  let ?names = "sorted_list_of_set (dom (map_of actual))"
  assume fields: "\<forall>name \<in> dom (map_of actual).
       map_of actual name = Some (field name) \<and>
       GoTypeDef (field name) versioned defPkg (tabs + 1) jsonTags = Inr (typedef name)"
    and n1: "n1 \<in> dom (map_of actual)" and n2: "n2 \<in> dom (map_of actual)"
    and less: "n1 < n2" and same: "Goify n1 True = Goify n2 True"
  have fin: "finite (dom (map_of actual))"
    by (rule finite_dom_map_of)
  have "sorted ?names" "n1 \<in> set ?names" "n2 \<in> set ?names"
    using fin n1 n2 by simp_all
  from sorted_split_two [OF this less] obtain as bs cs
    where names: "?names = as @ n1 # bs @ n2 # cs"
    by blast
  from fields have "GoTypeDef ?def versioned defPkg tabs jsonTags =
      Inr (''struct {\<newline>'' @ concat (map ?line ?names) @ WriteTabs [] tabs @ ''}'')"
    by (intro GoTypeDef_Object_Inr) blast
  then have result: "GoTypeDef ?def versioned defPkg tabs jsonTags =
      Inr (''struct {\<newline>'' @ concat (map ?line as) @ WriteTabs [] (tabs + 1)
           @ GoTypeDef_field ?def n1 (field n1) jsonTags (typedef n1)
           @ concat (map ?line bs) @ WriteTabs [] (tabs + 1)
           @ GoTypeDef_field ?def n2 (field n2) jsonTags (typedef n2)
           @ concat (map ?line cs) @ WriteTabs [] tabs @ ''}'')"
    unfolding names by simp
  have text1: "\<exists>tail1. GoTypeDef_field ?def n1 (field n1) jsonTags (typedef n1) =
        (if Description (field n1) \<noteq> '''' then ''// '' @ Description (field n1) @ ''\<newline>''
         else '''')
        @ Goify n1 True @ '' '' @ tail1"
    unfolding GoTypeDef_field_text by (intro exI) (rule refl)
  have text2: "\<exists>tail2. GoTypeDef_field ?def n2 (field n2) jsonTags (typedef n2) =
        (if Description (field n2) \<noteq> '''' then ''// '' @ Description (field n2) @ ''\<newline>''
         else '''')
        @ Goify n1 True @ '' '' @ tail2"
    unfolding GoTypeDef_field_text same by (intro exI) (rule refl)
  from text1 text2 names result
  show "\<exists>as bs cs tail1 tail2.
      sorted_list_of_set (dom (map_of actual)) = as @ n1 # bs @ n2 # cs \<and>
      GoTypeDef_field ?def n1 (field n1) jsonTags (typedef n1) =
        (if Description (field n1) \<noteq> '''' then ''// '' @ Description (field n1) @ ''\<newline>''
         else '''')
        @ Goify n1 True @ '' '' @ tail1 \<and>
      GoTypeDef_field ?def n2 (field n2) jsonTags (typedef n2) =
        (if Description (field n2) \<noteq> '''' then ''// '' @ Description (field n2) @ ''\<newline>''
         else '''')
        @ Goify n1 True @ '' '' @ tail2 \<and>
      GoTypeDef ?def versioned defPkg tabs jsonTags =
        Inr (''struct {\<newline>'' @ concat (map ?line as) @ WriteTabs [] (tabs + 1)
             @ GoTypeDef_field ?def n1 (field n1) jsonTags (typedef n1)
             @ concat (map ?line bs) @ WriteTabs [] (tabs + 1)
             @ GoTypeDef_field ?def n2 (field n2) jsonTags (typedef n2)
             @ concat (map ?line cs) @ WriteTabs [] tabs @ ''}'')"
    by blast
qed

theorem GoTypeDef_Object_collision_witness:
  "GoTypeDef (AttributeDefinition (Primitive IntegerKind) '''' [] False) False '''' (0 + 1)
     False = Inr ''int'' \<and>
   ''userId'' < ''user_id'' \<and> Goify ''userId'' True = Goify ''user_id'' True \<and>
   GoTypeDef
     (AttributeDefinition
        (Object [(''user_id'', AttributeDefinition (Primitive IntegerKind) '''' [] False),
                 (''userId'', AttributeDefinition (Primitive IntegerKind) '''' [] False)])
        '''' [RequiredValidationDefinition [''userId'', ''user_id'']] False)
     False '''' 0 False =
     Inr (''struct {\<newline>'' @ [CHR 0x09] @ ''UserId int\<newline>'' @ [CHR 0x09] @ ''UserId int\<newline>''
          @ ''}'')"
proof -
  let ?i = "AttributeDefinition (Primitive IntegerKind) '''' [] False"
  let ?actual = "[(''user_id'', ?i), (''userId'', ?i)]"
  let ?def = "AttributeDefinition (Object ?actual) ''''
    [RequiredValidationDefinition [''userId'', ''user_id'']] False"
  have less: "''userId'' < ''user_id''"
    by code_simp
  have goify: "Goify ''userId'' True = Goify ''user_id'' True"
    by code_simp
  have fields: "\<forall>name \<in> dom (map_of ?actual).
      map_of ?actual name = Some ?i \<and> GoTypeDef ?i False '''' (0 + 1) False = Inr ''int''"
    by simp
  have dom: "''userId'' \<in> dom (map_of ?actual)" "''user_id'' \<in> dom (map_of ?actual)"
    by simp_all
  have "sort (map_keys ?actual) = [''userId'', ''user_id'']"
    by code_simp
  then have names: "sorted_list_of_set (dom (map_of ?actual)) = [''userId'', ''user_id'']"
    by (simp only: sort_map_keys)
  have texts:
    "GoTypeDef_field ?def ''userId'' ?i False ''int'' = ''UserId int\<newline>''"
    "GoTypeDef_field ?def ''user_id'' ?i False ''int'' = ''UserId int\<newline>''"
    by code_simp+
  have tabs: "WriteTabs [] (0 + 1) = [CHR 0x09]" "WriteTabs [] 0 = []"
    by (simp_all add: WriteTabs_def)
  from GoTypeDef_Object_collision [of ?actual "\<lambda>n. ?i" False "''''" 0 False "\<lambda>n. ''int''"
      "''userId''" "''user_id''" "''''" "[RequiredValidationDefinition [''userId'', ''user_id'']]"
      False] fields dom less goify
  obtain as bs cs
    where split: "[''userId'', ''user_id''] = as @ ''userId'' # bs @ ''user_id'' # cs"
      and result: "GoTypeDef ?def False '''' 0 False =
        Inr (''struct {\<newline>''
             @ concat (map (\<lambda>name. WriteTabs [] (0 + 1)
                   @ GoTypeDef_field ?def name ?i False ''int'') as)
             @ WriteTabs [] (0 + 1) @ GoTypeDef_field ?def ''userId'' ?i False ''int''
             @ concat (map (\<lambda>name. WriteTabs [] (0 + 1)
                   @ GoTypeDef_field ?def name ?i False ''int'') bs)
             @ WriteTabs [] (0 + 1) @ GoTypeDef_field ?def ''user_id'' ?i False ''int''
             @ concat (map (\<lambda>name. WriteTabs [] (0 + 1)
                   @ GoTypeDef_field ?def name ?i False ''int'') cs)
             @ WriteTabs [] 0 @ ''}'')"
    unfolding names by blast
  from split have "length [''userId'', ''user_id''] =
      length (as @ ''userId'' # bs @ ''user_id'' # cs)"
    by (rule arg_cong)
  then have empty: "as = []" "bs = []" "cs = []"
    by simp_all
  have "GoTypeDef ?def False '''' 0 False =
     Inr (''struct {\<newline>'' @ [CHR 0x09] @ ''UserId int\<newline>'' @ [CHR 0x09] @ ''UserId int\<newline>''
          @ ''}'')"
    unfolding result empty texts tabs by simp
  with fields less goify show ?thesis
    by simp
qed

section \<open>The order of the fields\<close>

text \<open>
  C3. The definition of an object lists its fields in the ascending lexicographic order of
  their names as the design gives them: when the type of every field renders, the definition
  is the opening line, then the text of each field in the sorted list of the keys of the map,
  then the closing brace. The sorted list of the keys, and with it the definition, does not
  depend on the order in which the map enumerates its fields: two objects that hold the same
  map have the same definition.
\<close>

theorem GoTypeDef_Object_field_order:
  "((\<forall>name \<in> dom (map_of actual).
        map_of actual name = Some (field name) \<and>
        GoTypeDef (field name) versioned defPkg (tabs + 1) jsonTags = Inr (typedef name)) \<longrightarrow>
      GoTypeDef (AttributeDefinition (Object actual) dsc vals fp) versioned defPkg tabs jsonTags =
        Inr (''struct {\<newline>''
             @ concat (map (\<lambda>name. WriteTabs [] (tabs + 1)
                   @ GoTypeDef_field (AttributeDefinition (Object actual) dsc vals fp) name
                       (field name) jsonTags (typedef name))
                 (sorted_list_of_set (dom (map_of actual))))
             @ WriteTabs [] tabs @ ''}'')) \<and>
   sorted (sorted_list_of_set (dom (map_of actual))) \<and>
   distinct (sorted_list_of_set (dom (map_of actual))) \<and>
   set (sorted_list_of_set (dom (map_of actual))) = dom (map_of actual) \<and>
   (map_of actual' = map_of actual \<longrightarrow>
      GoTypeDef (AttributeDefinition (Object actual') dsc vals fp) versioned defPkg tabs jsonTags =
      GoTypeDef (AttributeDefinition (Object actual) dsc vals fp) versioned defPkg tabs jsonTags)"
proof -
  have "finite (dom (map_of actual))"
    by (rule finite_dom_map_of)
  then show ?thesis
    using GoTypeDef_Object_Inr [of actual field versioned defPkg tabs jsonTags "typedef" dsc vals fp]
      GoTypeDef_Object_map_of [of actual' actual dsc vals fp versioned defPkg tabs jsonTags]
    by simp
qed

theorem GoTypeDef_Object_field_order_witness:
  "GoTypeDef (AttributeDefinition (Primitive StringKind) '''' [] False) False '''' (0 + 1)
     False = Inr ''string'' \<and>
   map_of
     [(''c'', AttributeDefinition (Primitive StringKind) '''' [] False),
      (''a'', AttributeDefinition (Primitive StringKind) '''' [] False),
      (''b'', AttributeDefinition (Primitive StringKind) '''' [] False)] =
   map_of
     [(''b'', AttributeDefinition (Primitive StringKind) '''' [] False),
      (''a'', AttributeDefinition (Primitive StringKind) '''' [] False),
      (''c'', AttributeDefinition (Primitive StringKind) '''' [] False)] \<and>
   GoTypeDef
     (AttributeDefinition
        (Object [(''b'', AttributeDefinition (Primitive StringKind) '''' [] False),
                 (''a'', AttributeDefinition (Primitive StringKind) '''' [] False),
                 (''c'', AttributeDefinition (Primitive StringKind) '''' [] False)])
        '''' [] False)
     False '''' 0 False =
     Inr (''struct {\<newline>'' @ [CHR 0x09] @ ''A *string\<newline>'' @ [CHR 0x09] @ ''B *string\<newline>''
          @ [CHR 0x09] @ ''C *string\<newline>'' @ ''}'') \<and>
   GoTypeDef
     (AttributeDefinition
        (Object [(''c'', AttributeDefinition (Primitive StringKind) '''' [] False),
                 (''a'', AttributeDefinition (Primitive StringKind) '''' [] False),
                 (''b'', AttributeDefinition (Primitive StringKind) '''' [] False)])
        '''' [] False)
     False '''' 0 False =
     Inr (''struct {\<newline>'' @ [CHR 0x09] @ ''A *string\<newline>'' @ [CHR 0x09] @ ''B *string\<newline>''
          @ [CHR 0x09] @ ''C *string\<newline>'' @ ''}'')"
proof -
  let ?s = "AttributeDefinition (Primitive StringKind) '''' [] False"
  let ?actual = "[(''b'', ?s), (''a'', ?s), (''c'', ?s)]"
  let ?actual' = "[(''c'', ?s), (''a'', ?s), (''b'', ?s)]"
  have same: "map_of ?actual' = map_of ?actual"
    by (rule ext) simp
  have "sort (map_keys ?actual) = [''a'', ''b'', ''c'']"
    by code_simp
  then have names: "sorted_list_of_set (dom (map_of ?actual)) = [''a'', ''b'', ''c'']"
    by (simp only: sort_map_keys)
  have fields: "\<forall>name \<in> dom (map_of ?actual).
      map_of ?actual name = Some ?s \<and> GoTypeDef ?s False '''' (0 + 1) False = Inr ''string''"
    by simp
  have texts: "GoTypeDef_field (AttributeDefinition (Object ?actual) '''' [] False) ''a'' ?s False
        ''string'' = ''A *string\<newline>''"
    "GoTypeDef_field (AttributeDefinition (Object ?actual) '''' [] False) ''b'' ?s False
        ''string'' = ''B *string\<newline>''"
    "GoTypeDef_field (AttributeDefinition (Object ?actual) '''' [] False) ''c'' ?s False
        ''string'' = ''C *string\<newline>''"
    by code_simp+
  have tabs: "WriteTabs [] (0 + 1) = [CHR 0x09]" "WriteTabs [] 0 = []"
    by (simp_all add: WriteTabs_def)
  from GoTypeDef_Object_field_order [of ?actual "\<lambda>n. ?s" False "''''" 0 False
      "\<lambda>n. ''string''" "''''" "[]" False ?actual'] fields same
  have "GoTypeDef (AttributeDefinition (Object ?actual) '''' [] False) False '''' 0 False =
        Inr (''struct {\<newline>''
             @ concat (map (\<lambda>name. WriteTabs [] (0 + 1)
                   @ GoTypeDef_field (AttributeDefinition (Object ?actual) '''' [] False) name
                       ?s False ''string'')
                 (sorted_list_of_set (dom (map_of ?actual))))
             @ WriteTabs [] 0 @ ''}'')"
    and "GoTypeDef (AttributeDefinition (Object ?actual') '''' [] False) False '''' 0 False =
         GoTypeDef (AttributeDefinition (Object ?actual) '''' [] False) False '''' 0 False"
    by blast+
  then have
    "GoTypeDef (AttributeDefinition (Object ?actual) '''' [] False) False '''' 0 False =
       Inr (''struct {\<newline>'' @ [CHR 0x09] @ ''A *string\<newline>'' @ [CHR 0x09] @ ''B *string\<newline>''
            @ [CHR 0x09] @ ''C *string\<newline>'' @ ''}'') \<and>
     GoTypeDef (AttributeDefinition (Object ?actual') '''' [] False) False '''' 0 False =
       Inr (''struct {\<newline>'' @ [CHR 0x09] @ ''A *string\<newline>'' @ [CHR 0x09] @ ''B *string\<newline>''
            @ [CHR 0x09] @ ''C *string\<newline>'' @ ''}'')"
    unfolding names
    by (simp only: list.map concat.simps texts tabs append_Nil append_Nil2 append_assoc
        append_Cons simp_thms)
  with fields same show ?thesis
    by simp
qed

section \<open>The serialization tags\<close>

text \<open>
  C4. With the tags enabled, the definition of an object whose field types all render is the
  opening line, one text for each field in sorted order, and the closing brace; the text of a
  field ends with the tag, which holds the name of the field as the design gives it, once for
  \<open>json\<close> and once for \<open>xml\<close>, each followed by \<open>,omitempty\<close> when the name is not among
  the required names of the attribute and by nothing when it is.
\<close>

theorem GoTypeDef_Object_tags:
  "(\<forall>name \<in> dom (map_of actual).
       map_of actual name = Some (field name) \<and>
       GoTypeDef (field name) versioned defPkg (tabs + 1) True = Inr (typedef name)) \<longrightarrow>
   GoTypeDef (AttributeDefinition (Object actual) dsc vals fp) versioned defPkg tabs True =
     Inr (''struct {\<newline>''
          @ concat (map (\<lambda>name. WriteTabs [] (tabs + 1)
                @ (if Description (field name) \<noteq> ''''
                   then ''// '' @ Description (field name) @ ''\<newline>'' else '''')
                @ Goify name True @ '' ''
                @ (if IsObject (Type (field name)) \<or>
                      IsPrimitivePointer (AttributeDefinition (Object actual) dsc vals fp) name
                   then ''*'' else '''')
                @ typedef name
                @ '' '' @ [CHR 0x60] @ ''json:'' @ [CHR 0x22] @ name
                @ (if name \<in> set (AllRequired (AttributeDefinition (Object actual) dsc vals fp))
                   then '''' else '',omitempty'')
                @ [CHR 0x22] @ '' xml:'' @ [CHR 0x22] @ name
                @ (if name \<in> set (AllRequired (AttributeDefinition (Object actual) dsc vals fp))
                   then '''' else '',omitempty'')
                @ [CHR 0x22] @ [CHR 0x60] @ ''\<newline>'')
              (sorted_list_of_set (dom (map_of actual))))
          @ WriteTabs [] tabs @ ''}'')"
proof (intro impI)
  assume "\<forall>name \<in> dom (map_of actual).
        map_of actual name = Some (field name) \<and>
        GoTypeDef (field name) versioned defPkg (tabs + 1) True = Inr (typedef name)"
  then have "GoTypeDef (AttributeDefinition (Object actual) dsc vals fp) versioned defPkg tabs
      True =
    Inr (''struct {\<newline>''
         @ concat (map (\<lambda>name. WriteTabs [] (tabs + 1)
               @ GoTypeDef_field (AttributeDefinition (Object actual) dsc vals fp) name
                   (field name) True (typedef name))
             (sorted_list_of_set (dom (map_of actual))))
         @ WriteTabs [] tabs @ ''}'')"
    by (intro GoTypeDef_Object_Inr) blast
  then show "GoTypeDef (AttributeDefinition (Object actual) dsc vals fp) versioned defPkg tabs
      True =
     Inr (''struct {\<newline>''
          @ concat (map (\<lambda>name. WriteTabs [] (tabs + 1)
                @ (if Description (field name) \<noteq> ''''
                   then ''// '' @ Description (field name) @ ''\<newline>'' else '''')
                @ Goify name True @ '' ''
                @ (if IsObject (Type (field name)) \<or>
                      IsPrimitivePointer (AttributeDefinition (Object actual) dsc vals fp) name
                   then ''*'' else '''')
                @ typedef name
                @ '' '' @ [CHR 0x60] @ ''json:'' @ [CHR 0x22] @ name
                @ (if name \<in> set (AllRequired (AttributeDefinition (Object actual) dsc vals fp))
                   then '''' else '',omitempty'')
                @ [CHR 0x22] @ '' xml:'' @ [CHR 0x22] @ name
                @ (if name \<in> set (AllRequired (AttributeDefinition (Object actual) dsc vals fp))
                   then '''' else '',omitempty'')
                @ [CHR 0x22] @ [CHR 0x60] @ ''\<newline>'')
              (sorted_list_of_set (dom (map_of actual))))
          @ WriteTabs [] tabs @ ''}'')"
    by (simp only: GoTypeDef_field_text IsRequired_def if_True append_assoc)
qed

theorem GoTypeDef_Object_tags_witness:
  "GoTypeDef (AttributeDefinition (Primitive IntegerKind) '''' [] False) False '''' (0 + 1)
     True = Inr ''int'' \<and>
   GoTypeDef (AttributeDefinition (Primitive StringKind) '''' [] False) False '''' (0 + 1)
     True = Inr ''string'' \<and>
   GoTypeDef
     (AttributeDefinition
        (Object [(''id'', AttributeDefinition (Primitive IntegerKind) '''' [] False),
                 (''name'', AttributeDefinition (Primitive StringKind) '''' [] False)])
        '''' [RequiredValidationDefinition [''id'']] False)
     False '''' 0 True =
     Inr (''struct {\<newline>''
          @ [CHR 0x09] @ ''ID int '' @ [CHR 0x60] @ ''json:'' @ [CHR 0x22] @ ''id'' @ [CHR 0x22]
          @ '' xml:'' @ [CHR 0x22] @ ''id'' @ [CHR 0x22] @ [CHR 0x60] @ ''\<newline>''
          @ [CHR 0x09] @ ''Name *string '' @ [CHR 0x60] @ ''json:'' @ [CHR 0x22]
          @ ''name,omitempty'' @ [CHR 0x22] @ '' xml:'' @ [CHR 0x22] @ ''name,omitempty''
          @ [CHR 0x22] @ [CHR 0x60] @ ''\<newline>''
          @ ''}'')"
proof -
  let ?i = "AttributeDefinition (Primitive IntegerKind) '''' [] False"
  let ?s = "AttributeDefinition (Primitive StringKind) '''' [] False"
  let ?actual = "[(''id'', ?i), (''name'', ?s)]"
  let ?def = "AttributeDefinition (Object ?actual) '''' [RequiredValidationDefinition [''id'']]
    False"
  have "sort (map_keys ?actual) = [''id'', ''name'']"
    by code_simp
  then have names: "sorted_list_of_set (dom (map_of ?actual)) = [''id'', ''name'']"
    by (simp only: sort_map_keys)
  have fields: "\<forall>name \<in> dom (map_of ?actual).
      map_of ?actual name = Some (if name = ''id'' then ?i else ?s) \<and>
      GoTypeDef (if name = ''id'' then ?i else ?s) False '''' (0 + 1) True =
        Inr (if name = ''id'' then ''int'' else ''string'')"
    by simp
  have goify: "Goify ''id'' True = ''ID''" "Goify ''name'' True = ''Name''"
    by code_simp+
  have pointer: "\<not> IsPrimitivePointer ?def ''id''" "IsPrimitivePointer ?def ''name''"
    by code_simp+
  have required: "AllRequired ?def = [''id'']"
    by (simp add: AllRequired_def)
  have "GoTypeDef ?def False '''' 0 True =
     Inr (''struct {\<newline>''
          @ [CHR 0x09] @ ''ID int '' @ [CHR 0x60] @ ''json:'' @ [CHR 0x22] @ ''id'' @ [CHR 0x22]
          @ '' xml:'' @ [CHR 0x22] @ ''id'' @ [CHR 0x22] @ [CHR 0x60] @ ''\<newline>''
          @ [CHR 0x09] @ ''Name *string '' @ [CHR 0x60] @ ''json:'' @ [CHR 0x22]
          @ ''name,omitempty'' @ [CHR 0x22] @ '' xml:'' @ [CHR 0x22] @ ''name,omitempty''
          @ [CHR 0x22] @ [CHR 0x60] @ ''\<newline>''
          @ ''}'')"
    using GoTypeDef_Object_tags [of ?actual "\<lambda>name. if name = ''id'' then ?i else ?s" False "''''" 0
        "\<lambda>name. if name = ''id'' then ''int'' else ''string''" "''''"
        "[RequiredValidationDefinition [''id'']]" False, unfolded names] fields
    by (simp add: goify pointer required WriteTabs_def)
  then show ?thesis
    by simp
qed

section \<open>The indentation of the fields\<close>

text \<open>
  C6 fails for every field that carries a description. The tabs of a field are written once,
  before the description; the description ends with a newline, and the identifier of the field
  follows it at once. So, whatever the number of tabs, the line that declares the field
  begins with the identifier, whose first byte is the byte of an identifier and not a tab:
  the line is not indented.
\<close>

theorem GoTypeDef_Object_description_line:
  "(\<forall>name \<in> dom (map_of actual).
       map_of actual name = Some (field name) \<and>
       GoTypeDef (field name) versioned defPkg (tabs + 1) jsonTags = Inr (typedef name)) \<and>
   n \<in> dom (map_of actual) \<and> Description (field n) \<noteq> '''' \<longrightarrow>
   (\<exists>as bs tail.
      sorted_list_of_set (dom (map_of actual)) = as @ n # bs \<and>
      GoTypeDef_field (AttributeDefinition (Object actual) dsc vals fp) n (field n) jsonTags
          (typedef n) =
        ''// '' @ Description (field n) @ ''\<newline>'' @ Goify n True @ '' '' @ tail \<and>
      GoTypeDef (AttributeDefinition (Object actual) dsc vals fp) versioned defPkg tabs jsonTags =
        Inr (''struct {\<newline>''
             @ concat (map (\<lambda>name. WriteTabs [] (tabs + 1)
                   @ GoTypeDef_field (AttributeDefinition (Object actual) dsc vals fp) name
                       (field name) jsonTags (typedef name)) as)
             @ WriteTabs [] (tabs + 1)
             @ GoTypeDef_field (AttributeDefinition (Object actual) dsc vals fp) n (field n)
                 jsonTags (typedef n)
             @ concat (map (\<lambda>name. WriteTabs [] (tabs + 1)
                   @ GoTypeDef_field (AttributeDefinition (Object actual) dsc vals fp) name
                       (field name) jsonTags (typedef name)) bs)
             @ WriteTabs [] tabs @ ''}'')) \<and>
   Goify n True \<noteq> [] \<and> hd (Goify n True) \<noteq> CHR 0x09"
proof (intro impI, elim conjE)
  let ?def = "AttributeDefinition (Object actual) dsc vals fp"
  let ?line = "\<lambda>name. WriteTabs [] (tabs + 1)
                   @ GoTypeDef_field ?def name (field name) jsonTags (typedef name)"
  let ?names = "sorted_list_of_set (dom (map_of actual))"
  assume fields: "\<forall>name \<in> dom (map_of actual).
       map_of actual name = Some (field name) \<and>
       GoTypeDef (field name) versioned defPkg (tabs + 1) jsonTags = Inr (typedef name)"
    and n: "n \<in> dom (map_of actual)" and described: "Description (field n) \<noteq> ''''"
  have "finite (dom (map_of actual))"
    by (rule finite_dom_map_of)
  with n have "n \<in> set ?names"
    by simp
  then obtain as bs where names: "?names = as @ n # bs"
    by (auto dest: split_list)
  from fields have "GoTypeDef ?def versioned defPkg tabs jsonTags =
      Inr (''struct {\<newline>'' @ concat (map ?line ?names) @ WriteTabs [] tabs @ ''}'')"
    by (intro GoTypeDef_Object_Inr) blast
  then have result: "GoTypeDef ?def versioned defPkg tabs jsonTags =
      Inr (''struct {\<newline>'' @ concat (map ?line as) @ WriteTabs [] (tabs + 1)
           @ GoTypeDef_field ?def n (field n) jsonTags (typedef n)
           @ concat (map ?line bs) @ WriteTabs [] tabs @ ''}'')"
    unfolding names by simp
  have comment: "(if Description (field n) \<noteq> ''''
        then ''// '' @ Description (field n) @ ''\<newline>'' else '''') =
      ''// '' @ Description (field n) @ ''\<newline>''"
    using described by simp
  have field_text: "\<exists>tail. GoTypeDef_field ?def n (field n) jsonTags (typedef n) =
        ''// '' @ Description (field n) @ ''\<newline>'' @ Goify n True @ '' '' @ tail"
    unfolding GoTypeDef_field_text comment append_assoc by (intro exI) (rule refl)
  have "\<not> identifier_byte (CHR 0x09)"
    by (simp add: identifier_byte_def)
  with Goify_first_byte [of n True] have first: "hd (Goify n True) \<noteq> CHR 0x09"
    by auto
  from field_text names result first Goify_not_empty [of n True]
  show "(\<exists>as bs tail.
      sorted_list_of_set (dom (map_of actual)) = as @ n # bs \<and>
      GoTypeDef_field ?def n (field n) jsonTags (typedef n) =
        ''// '' @ Description (field n) @ ''\<newline>'' @ Goify n True @ '' '' @ tail \<and>
      GoTypeDef ?def versioned defPkg tabs jsonTags =
        Inr (''struct {\<newline>'' @ concat (map ?line as) @ WriteTabs [] (tabs + 1)
             @ GoTypeDef_field ?def n (field n) jsonTags (typedef n)
             @ concat (map ?line bs) @ WriteTabs [] tabs @ ''}'')) \<and>
      Goify n True \<noteq> [] \<and> hd (Goify n True) \<noteq> CHR 0x09"
    by blast
qed

theorem GoTypeDef_Object_description_line_witness:
  "GoTypeDef (AttributeDefinition (Primitive StringKind) ''the name'' [] False) False ''''
     (1 + 1) False = Inr ''string'' \<and>
   Description (AttributeDefinition (Primitive StringKind) ''the name'' [] False) \<noteq> '''' \<and>
   GoTypeDef
     (AttributeDefinition
        (Object [(''name'', AttributeDefinition (Primitive StringKind) ''the name'' [] False)])
        '''' [RequiredValidationDefinition [''name'']] False)
     False '''' 1 False =
     Inr (''struct {\<newline>'' @ [CHR 0x09, CHR 0x09] @ ''// the name\<newline>'' @ ''Name string\<newline>''
          @ [CHR 0x09] @ ''}'') \<and>
   hd (Goify ''name'' True) \<noteq> CHR 0x09"
proof -
  let ?s = "AttributeDefinition (Primitive StringKind) ''the name'' [] False"
  let ?actual = "[(''name'', ?s)]"
  let ?def = "AttributeDefinition (Object ?actual) '''' [RequiredValidationDefinition [''name'']]
    False"
  have fields: "\<forall>name \<in> dom (map_of ?actual).
      map_of ?actual name = Some ?s \<and> GoTypeDef ?s False '''' (1 + 1) False = Inr ''string''"
    by simp
  have dom: "''name'' \<in> dom (map_of ?actual)"
    by simp
  have described: "Description ?s \<noteq> ''''"
    by simp
  have "sort (map_keys ?actual) = [''name'']"
    by code_simp
  then have names: "sorted_list_of_set (dom (map_of ?actual)) = [''name'']"
    by (simp only: sort_map_keys)
  have texts: "GoTypeDef_field ?def ''name'' ?s False ''string'' =
      ''// the name\<newline>'' @ ''Name string\<newline>''"
    by code_simp
  have tabs: "WriteTabs [] (1 + 1) = [CHR 0x09, CHR 0x09]" "WriteTabs [] 1 = [CHR 0x09]"
    by (simp_all add: WriteTabs_def numeral_2_eq_2)
  from GoTypeDef_Object_description_line [of ?actual "\<lambda>n. ?s" False "''''" 1 False
      "\<lambda>n. ''string''" "''name''" "''''" "[RequiredValidationDefinition [''name'']]" False]
    fields dom described
  obtain as bs
    where split: "[''name''] = as @ ''name'' # bs"
      and result: "GoTypeDef ?def False '''' 1 False =
        Inr (''struct {\<newline>''
             @ concat (map (\<lambda>name. WriteTabs [] (1 + 1)
                   @ GoTypeDef_field ?def name ?s False ''string'') as)
             @ WriteTabs [] (1 + 1) @ GoTypeDef_field ?def ''name'' ?s False ''string''
             @ concat (map (\<lambda>name. WriteTabs [] (1 + 1)
                   @ GoTypeDef_field ?def name ?s False ''string'') bs)
             @ WriteTabs [] 1 @ ''}'')"
      and first: "hd (Goify ''name'' True) \<noteq> CHR 0x09"
    unfolding names by blast
  from split have "length [''name''] = length (as @ ''name'' # bs)"
    by (rule arg_cong)
  then have empty: "as = []" "bs = []"
    by simp_all
  have "GoTypeDef ?def False '''' 1 False =
     Inr (''struct {\<newline>'' @ [CHR 0x09, CHR 0x09] @ ''// the name\<newline>'' @ ''Name string\<newline>''
          @ [CHR 0x09] @ ''}'')"
    unfolding result empty texts tabs by simp
  with fields first show ?thesis
    by simp
qed

section \<open>The inline definition of an anonymous object\<close>

text \<open>
  C10. The name of an anonymous object is its definition rendered with the tags disabled,
  on the attribute that holds the object and the required names; its reference is that
  text behind a star; \<open>GoTypeName\<close> and \<open>GoTypeRef\<close> are the same functions in the
  default package. The flag goes down unchanged to the definition of every field, so the
  text holds no tag at any depth: when no description in the object holds a backquote, and
  the name of the default package holds none, no text that these four functions return
  holds a backquote, the byte that opens and closes the tag of a field.
\<close>

theorem inline_object_tags_disabled:
  "GoPackageTypeName (Object actual) required versioned defPkg tabs =
     GoTypeDef
       (AttributeDefinition (Object actual) ''''
          (if length required > 0 then [RequiredValidationDefinition required] else []) False)
       versioned defPkg tabs False \<and>
   GoPackageTypeRef (Object actual) required versioned defPkg tabs =
     and_then (GoPackageTypeName (Object actual) required versioned defPkg tabs)
       (\<lambda>n. Inr (''*'' @ n)) \<and>
   GoTypeName (Object actual) required tabs =
     GoPackageTypeName (Object actual) required False '''' tabs \<and>
   GoTypeRef (Object actual) required tabs =
     GoPackageTypeRef (Object actual) required False '''' tabs \<and>
   (backquote_free_type (Object actual) \<and> CHR 0x60 \<notin> set defPkg \<longrightarrow>
      (\<forall>s. GoPackageTypeName (Object actual) required versioned defPkg tabs = Inr s \<longrightarrow>
         CHR 0x60 \<notin> set s) \<and>
      (\<forall>s. GoPackageTypeRef (Object actual) required versioned defPkg tabs = Inr s \<longrightarrow>
         CHR 0x60 \<notin> set s) \<and>
      (\<forall>s. GoTypeName (Object actual) required tabs = Inr s \<longrightarrow> CHR 0x60 \<notin> set s) \<and>
      (\<forall>s. GoTypeRef (Object actual) required tabs = Inr s \<longrightarrow> CHR 0x60 \<notin> set s))"
proof -
  have name: "GoPackageTypeName (Object actual) required versioned defPkg tabs =
     GoTypeDef
       (AttributeDefinition (Object actual) ''''
          (if length required > 0 then [RequiredValidationDefinition required] else []) False)
       versioned defPkg tabs False"
    by (simp add: Let_def)
  have ref: "GoPackageTypeRef (Object actual) required v p tabs =
     and_then (GoPackageTypeName (Object actual) required v p tabs) (\<lambda>n. Inr (''*'' @ n))"
    for v p
    by (simp add: GoPackageTypeRef.simps del: GoPackageTypeName.simps)
  have free: "CHR 0x60 \<notin> set s"
    if "backquote_free_type (Object actual)" and "CHR 0x60 \<notin> set p"
      and "GoPackageTypeName (Object actual) required v p tabs = Inr s" for v p s
    using no_backquote(1) [OF that(2) that(1), of required v tabs s] that(3) by blast
  have free_ref: "CHR 0x60 \<notin> set s"
    if "backquote_free_type (Object actual)" and "CHR 0x60 \<notin> set p"
      and "GoPackageTypeRef (Object actual) required v p tabs = Inr s" for v p s
  proof -
    from that(3) obtain n where "GoPackageTypeName (Object actual) required v p tabs = Inr n"
      and "s = ''*'' @ n"
      unfolding ref by (auto simp add: and_then_eq_Inr simp del: GoPackageTypeName.simps)
    with free [OF that(1,2)] show ?thesis
      by simp
  qed
  have empty: "CHR 0x60 \<notin> set ''''"
    by simp
  show ?thesis
    using name ref [of versioned defPkg] free free_ref free [OF _ empty] free_ref [OF _ empty]
    unfolding GoTypeName_def GoTypeRef_def by blast
qed

theorem inline_object_tags_disabled_witness:
  "backquote_free_type
     (Object [(''id'', AttributeDefinition (Primitive IntegerKind) ''the key'' [] False)]) \<and>
   CHR 0x60 \<notin> set ''app'' \<and>
   GoPackageTypeName
     (Object [(''id'', AttributeDefinition (Primitive IntegerKind) ''the key'' [] False)])
     [''id''] True ''app'' 0 =
     Inr (''struct {\<newline>'' @ [CHR 0x09] @ ''// the key\<newline>'' @ ''ID int\<newline>'' @ ''}'') \<and>
   CHR 0x60 \<notin> set (''struct {\<newline>'' @ [CHR 0x09] @ ''// the key\<newline>'' @ ''ID int\<newline>'' @ ''}'') \<and>
   GoTypeRef
     (Object [(''id'', AttributeDefinition (Primitive IntegerKind) ''the key'' [] False)])
     [''id''] 0 =
     Inr (''*struct {\<newline>'' @ [CHR 0x09] @ ''// the key\<newline>'' @ ''ID int\<newline>'' @ ''}'') \<and>
   GoTypeDef
     (AttributeDefinition
        (Object [(''id'', AttributeDefinition (Primitive IntegerKind) ''the key'' [] False)])
        '''' [RequiredValidationDefinition [''id'']] False)
     True ''app'' 0 True =
     Inr (''struct {\<newline>'' @ [CHR 0x09] @ ''// the key\<newline>'' @ ''ID int '' @ [CHR 0x60] @ ''json:''
          @ [CHR 0x22] @ ''id'' @ [CHR 0x22] @ '' xml:'' @ [CHR 0x22] @ ''id'' @ [CHR 0x22]
          @ [CHR 0x60] @ ''\<newline>'' @ ''}'')"
proof -
  let ?actual = "[(''id'', AttributeDefinition (Primitive IntegerKind) ''the key'' [] False)]"
  let ?s = "''struct {\<newline>'' @ [CHR 0x09] @ ''// the key\<newline>'' @ ''ID int\<newline>'' @ ''}''"
  have free: "backquote_free_type (Object ?actual)"
    by simp
  have pkg: "CHR 0x60 \<notin> set ''app''"
    by simp
  have rendered: "GoTypeDef
       (AttributeDefinition (Object ?actual) ''''
          (if length [''id''] > 0 then [RequiredValidationDefinition [''id'']] else []) False)
       v p 0 False = Inr ?s" for v p
    by code_simp
  have tagged: "GoTypeDef
     (AttributeDefinition (Object ?actual) '''' [RequiredValidationDefinition [''id'']] False)
     True ''app'' 0 True =
     Inr (''struct {\<newline>'' @ [CHR 0x09] @ ''// the key\<newline>'' @ ''ID int '' @ [CHR 0x60] @ ''json:''
          @ [CHR 0x22] @ ''id'' @ [CHR 0x22] @ '' xml:'' @ [CHR 0x22] @ ''id'' @ [CHR 0x22]
          @ [CHR 0x60] @ ''\<newline>'' @ ''}'')"
    by code_simp
  note inst = inline_object_tags_disabled [of ?actual "[''id'']" True "''app''" 0]
  from inst have name: "GoPackageTypeName (Object ?actual) [''id''] True ''app'' 0 = Inr ?s"
    unfolding rendered by blast
  from inst free pkg name have no_tag: "CHR 0x60 \<notin> set ?s"
    by blast
  from inst have "GoTypeRef (Object ?actual) [''id''] 0 =
      and_then (GoPackageTypeName (Object ?actual) [''id''] False '''' 0) (\<lambda>n. Inr (''*'' @ n))"
    using inline_object_tags_disabled [of ?actual "[''id'']" False "''''" 0]
    by (simp del: GoPackageTypeName.simps)
  moreover have "GoPackageTypeName (Object ?actual) [''id''] False '''' 0 = Inr ?s"
    using inline_object_tags_disabled [of ?actual "[''id'']" False "''''" 0]
    unfolding rendered by blast
  ultimately have ref: "GoTypeRef (Object ?actual) [''id''] 0 = Inr (''*'' @ ?s)"
    by (simp del: GoPackageTypeName.simps)
  from free pkg name no_tag ref tagged show ?thesis
    by (simp del: GoPackageTypeName.simps backquote_free_type.simps)
qed

end
